theory Spec2Isabelle
  imports Complex_Main "HOL-Library.While_Combinator" "HOL-Library.Multiset"
begin

section \<open>Python values shared by the modules\<close>

text \<open>
  Exceptions are values: the class of the exception and the text that \<open>str(e)\<close> gives.
  A function of the source that can raise returns \<open>exn + 'a\<close>, \<open>Inl\<close> being the raise.
\<close>

datatype exn_class =
    IndexError | KeyError | ValueError | JSONDecodeError | AssertionError
  | FileNotFoundError | RuntimeError | AttributeError | TypeError
  | IntegrityError | CalledProcessError | ResponseError

datatype exn = Exn exn_class string

fun exn_cls :: "exn \<Rightarrow> exn_class" where
  "exn_cls (Exn c m) = c"

fun exn_str :: "exn \<Rightarrow> string" where
  "exn_str (Exn c m) = m"

text \<open>\<open>str(n)\<close> of a Python integer: decimal digits, a minus sign for a negative one.\<close>

definition digit_char :: "nat \<Rightarrow> char" where
  "digit_char d = ''0123456789'' ! d"

fun str_nat :: "nat \<Rightarrow> string" where
  "str_nat n = (if n < 10 then [digit_char n] else str_nat (n div 10) @ [digit_char (n mod 10)])"

declare str_nat.simps [simp del]

definition str_int :: "int \<Rightarrow> string" where
  "str_int i = (if i < 0 then CHR ''-'' # str_nat (nat (- i)) else str_nat (nat i))"

text \<open>Reading the digits back, used only to show that \<open>str\<close> is injective.\<close>

definition digit_val :: "char \<Rightarrow> nat" where
  "digit_val c = of_char c - 48"

definition dec_val :: "string \<Rightarrow> nat" where
  "dec_val s = foldl (\<lambda>a c. 10 * a + digit_val c) 0 s"

section \<open>The vector index store (llm\_logic.py)\<close>

text \<open>
  The mapping file \<open>mapping.json\<close> is a JSON object from \<open>str(position)\<close> to
  \<open>{'doc_id': ..., 'chunk_text': ...}\<close>; \<open>json.load\<close> gives it back as a dict.
\<close>

record entry =
  doc_id :: nat
  chunk_text :: string

type_synonym mapping = "string \<rightharpoonup> entry"

text \<open>
  The index file holds a \<open>faiss.IndexFlatL2\<close>: its dimension \<open>d\<close> and the stored
  vectors in insertion order; \<open>ntotal\<close> is their number. Vector components are
  idealised as reals; the cast \<open>np.array(..., dtype=np.float32)\<close> is the parameter
  \<open>f32\<close> of the functions below.
\<close>

record faiss_index =
  dim :: nat
  xb :: "real list list"

definition ntotal :: "faiss_index \<Rightarrow> nat" where
  "ntotal ix = length (xb ix)"

text \<open>The two files of a project directory; \<open>None\<close> is a file that does not exist.\<close>

record project_files =
  index_file :: "faiss_index option"
  mapping_file :: "mapping option"

text \<open>
  \<open>np.array(embeddings, dtype=np.float32)\<close> followed by \<open>index.add(x)\<close>. The faiss
  wrapper unpacks \<open>n, d = x.shape\<close> and asserts \<open>d == self.d\<close>: an empty list gives a
  one-dimensional array (the unpacking raises ValueError), rows of different lengths are
  refused by numpy (ValueError), and rows of another dimension fail the assertion.
\<close>

definition index_add :: "(real \<Rightarrow> real) \<Rightarrow> faiss_index \<Rightarrow> real list list \<Rightarrow> exn + faiss_index" where
  "index_add f32 ix embeddings =
     (case embeddings of
        [] \<Rightarrow> Inl (Exn ValueError ''not enough values to unpack (expected 2, got 1)'')
      | e # es \<Rightarrow>
          if \<not> list_all (\<lambda>v. length v = length e) es
          then Inl (Exn ValueError ''setting an array element with a sequence'')
          else if length e \<noteq> dim ix then Inl (Exn AssertionError [])
          else Inr (ix\<lparr>xb := xb ix @ map (map f32) embeddings\<rparr>))"

text \<open>The loop \<open>for i, chunk in enumerate(chunks): mapping[str(start_index + i)] = ...\<close>;
  the counter \<open>k\<close> is \<open>start_index + i\<close>.\<close>

fun add_mapping :: "mapping \<Rightarrow> nat \<Rightarrow> nat \<Rightarrow> string list \<Rightarrow> mapping" where
  "add_mapping m doc k [] = m"
| "add_mapping m doc k (chunk # chunks) =
     add_mapping (m(str_int (int k) \<mapsto> \<lparr>doc_id = doc, chunk_text = chunk\<rparr>)) doc (Suc k) chunks"

definition update_faiss_index ::
  "(real \<Rightarrow> real) \<Rightarrow> project_files \<Rightarrow> nat \<Rightarrow> string list \<Rightarrow> real list list \<Rightarrow> exn + project_files" where
  "update_faiss_index f32 fs doc chunks embeddings =
     (case
        (case index_file fs of
           Some ix \<Rightarrow>
             (case mapping_file fs of
                None \<Rightarrow> Inl (Exn FileNotFoundError ''mapping.json'')
              | Some m \<Rightarrow> Inr (ix, m))
         | None \<Rightarrow>
             (case embeddings of
                [] \<Rightarrow> Inl (Exn IndexError ''list index out of range'')
              | e # es \<Rightarrow> Inr (\<lparr>dim = length e, xb = []\<rparr>, Map.empty)))
      of
        Inl err \<Rightarrow> Inl err
      | Inr (ix, m) \<Rightarrow>
          (let start_index = ntotal ix in
           case index_add f32 ix embeddings of
             Inl err \<Rightarrow> Inl err
           | Inr ix' \<Rightarrow>
               Inr \<lparr>index_file = Some ix',
                    mapping_file = Some (add_mapping m doc start_index chunks)\<rparr>))"

text \<open>The invariant of the data model: index size equals mapping size, and every
  lookup key is (the decimal text of) a valid position.\<close>

definition index_inv :: "faiss_index \<Rightarrow> mapping \<Rightarrow> bool" where
  "index_inv ix m \<longleftrightarrow>
     finite (dom m) \<and> card (dom m) = ntotal ix \<and>
     (\<forall>key \<in> dom m. \<exists>p < ntotal ix. key = str_int (int p))"

section \<open>The context assembler (agent\_logic.py)\<close>

text \<open>
  The text-result loop of \<open>_gather_context\<close>:
  \<^verbatim>\<open>for idx in text_indices[0]:
      if str(idx) in text_mapping:
          item = text_mapping[str(idx)]
          context_items.add((item['doc_id'], f"Relevant Text Snippet:\n{item['chunk_text']}"))\<close>
  The subscript \<open>text_mapping[str(idx)]\<close> is the lookup that raises KeyError on an
  absent key; the model keeps that branch.
\<close>

definition dict_get :: "mapping \<Rightarrow> string \<Rightarrow> exn + entry" where
  "dict_get m key = (case m key of None \<Rightarrow> Inl (Exn KeyError key) | Some v \<Rightarrow> Inr v)"

definition text_snippet :: "entry \<Rightarrow> nat \<times> string" where
  "text_snippet item = (doc_id item, ''Relevant Text Snippet:'' @ [CHR 0x0A] @ chunk_text item)"

fun text_results :: "mapping \<Rightarrow> int list \<Rightarrow> (nat \<times> string) set \<Rightarrow> exn + (nat \<times> string) set" where
  "text_results text_mapping [] context_items = Inr context_items"
| "text_results text_mapping (idx # rest) context_items =
     (if text_mapping (str_int idx) \<noteq> None
      then (case dict_get text_mapping (str_int idx) of
              Inl err \<Rightarrow> Inl err
            | Inr item \<Rightarrow> text_results text_mapping rest (insert (text_snippet item) context_items))
      else text_results text_mapping rest context_items)"

section \<open>The figure region detector (llm\_logic.py)\<close>

text \<open>
  Bounding boxes are \<open>fitz.Rect\<close> values \<open>(x0, y0, x1, y1)\<close>; coordinates are
  idealised as reals. The operations of PyMuPDF's \<open>Rect\<close> that \<open>merge_nearby_bboxes\<close>
  calls follow the library: a rectangle is empty when \<open>x0 \<ge> x1\<close> or \<open>y0 \<ge> y1\<close>,
  \<open>r + (a, b, c, d)\<close> adds componentwise, \<open>intersects\<close> is false as soon as one of the
  two rectangles is empty or infinite, and \<open>r1 | r2\<close> is \<open>Rect(r1).include_rect(r2)\<close>.
\<close>

record rect =
  x0 :: real
  y0 :: real
  x1 :: real
  y1 :: real

definition FZ_MIN_INF_RECT :: real where
  "FZ_MIN_INF_RECT = - 2147483648"

definition FZ_MAX_INF_RECT :: real where
  "FZ_MAX_INF_RECT = 2147483520"

definition is_empty :: "rect \<Rightarrow> bool" where
  "is_empty r \<longleftrightarrow> x0 r \<ge> x1 r \<or> y0 r \<ge> y1 r"

definition is_infinite :: "rect \<Rightarrow> bool" where
  "is_infinite r \<longleftrightarrow>
     x0 r = FZ_MIN_INF_RECT \<and> y0 r = FZ_MIN_INF_RECT \<and>
     x1 r = FZ_MAX_INF_RECT \<and> y1 r = FZ_MAX_INF_RECT"

definition infinite_rect :: rect where
  "infinite_rect = \<lparr>x0 = FZ_MIN_INF_RECT, y0 = FZ_MIN_INF_RECT,
                    x1 = FZ_MAX_INF_RECT, y1 = FZ_MAX_INF_RECT\<rparr>"

definition rect_add :: "rect \<Rightarrow> real \<times> real \<times> real \<times> real \<Rightarrow> rect" where
  "rect_add r p = (case p of (a, b, c, d) \<Rightarrow>
     \<lparr>x0 = x0 r + a, y0 = y0 r + b, x1 = x1 r + c, y1 = y1 r + d\<rparr>)"

definition intersect :: "rect \<Rightarrow> rect \<Rightarrow> rect" where
  "intersect s r =
     (if is_infinite r then s
      else if is_infinite s then r
      else if is_empty r then r
      else if is_empty s then s
      else \<lparr>x0 = max (x0 s) (x0 r), y0 = max (y0 s) (y0 r),
            x1 = min (x1 s) (x1 r), y1 = min (y1 s) (y1 r)\<rparr>)"

definition intersects :: "rect \<Rightarrow> rect \<Rightarrow> bool" where
  "intersects s x =
     (if is_empty s \<or> is_infinite s \<or> is_empty x \<or> is_infinite x then False
      else if is_empty (intersect s x) then False
      else True)"

definition include_rect :: "rect \<Rightarrow> rect \<Rightarrow> rect" where
  "include_rect s r =
     (if is_infinite r \<or> is_infinite s then infinite_rect
      else if is_empty r then s
      else if is_empty s then r
      else \<lparr>x0 = min (x0 s) (x0 r), y0 = min (y0 s) (y0 r),
            x1 = max (x1 s) (x1 r), y1 = max (y1 s) (y1 r)\<rparr>)"

text \<open>The proximity test of the inner loop:
  \<open>r1_inflated = r1 + (-threshold, -threshold, threshold, threshold)\<close>,
  \<open>r1_inflated.intersects(r2)\<close>.\<close>

definition near :: "real \<Rightarrow> rect \<Rightarrow> rect \<Rightarrow> bool" where
  "near threshold r1 r2 = intersects (rect_add r1 (- threshold, - threshold, threshold, threshold)) r2"

text \<open>
  The two nested \<open>for\<close> loops look for the first pair in scan order:
  \<open>i\<close> from \<open>len(rects) - 1\<close> down to \<open>0\<close>, and for each \<open>i\<close>, \<open>j\<close> from \<open>i - 1\<close>
  down to \<open>0\<close>. \<open>find_j \<dots> i k\<close> scans \<open>j = k - 1, \<dots>, 0\<close>; \<open>find_pair \<dots> k\<close>
  scans \<open>i = k - 1, \<dots>, 0\<close>.
\<close>

fun find_j :: "real \<Rightarrow> rect list \<Rightarrow> nat \<Rightarrow> nat \<Rightarrow> nat option" where
  "find_j threshold rects i 0 = None"
| "find_j threshold rects i (Suc j) =
     (if near threshold (rects ! i) (rects ! j) then Some j
      else find_j threshold rects i j)"

fun find_pair :: "real \<Rightarrow> rect list \<Rightarrow> nat \<Rightarrow> (nat \<times> nat) option" where
  "find_pair threshold rects 0 = None"
| "find_pair threshold rects (Suc i) =
     (case find_j threshold rects i i of
        Some j \<Rightarrow> Some (i, j)
      | None \<Rightarrow> find_pair threshold rects i)"

text \<open>\<open>rects.pop(i)\<close> for an index in range.\<close>

definition pop :: "nat \<Rightarrow> 'a list \<Rightarrow> 'a list" where
  "pop i xs = take i xs @ drop (Suc i) xs"

text \<open>
  One execution of the body of \<open>while merged:\<close>. The pair is the value of the flag
  \<open>merged\<close> after the body and the list: on a hit \<open>rects[j] = r1 | r2\<close>,
  \<open>rects.pop(i)\<close> and both loops are left.
\<close>

definition merge_pass :: "real \<Rightarrow> rect list \<Rightarrow> bool \<times> rect list" where
  "merge_pass threshold rects =
     (case find_pair threshold rects (length rects) of
        None \<Rightarrow> (False, rects)
      | Some (i, j) \<Rightarrow>
          (True, pop i (rects[j := include_rect (rects ! i) (rects ! j)])))"

text \<open>The function itself; \<open>None\<close> would be a loop that never ends.\<close>

definition merge_nearby_bboxes :: "real \<Rightarrow> rect list \<Rightarrow> rect list option" where
  "merge_nearby_bboxes threshold bboxes =
     (if bboxes = [] then Some []
      else map_option snd
             (while_option (\<lambda>(merged, rects). merged)
                           (\<lambda>(merged, rects). merge_pass threshold rects)
                           (True, bboxes)))"

text \<open>
  Notions for the order-independence argument: a box of positive area to the right of
  MuPDF's infinite-rectangle sentinel (so that neither it nor its inflated form is empty
  or infinite), containment of boxes, a family in which no two different boxes are near,
  a family each of whose boxes lies in a box of another, and the exit condition of the
  scan.
\<close>

definition valid_box :: "real \<Rightarrow> rect \<Rightarrow> bool" where
  "valid_box t r \<longleftrightarrow> x0 r < x1 r \<and> y0 r < y1 r \<and> FZ_MIN_INF_RECT + t < x0 r"

definition inside :: "rect \<Rightarrow> rect \<Rightarrow> bool" where
  "inside a b \<longleftrightarrow> x0 b \<le> x0 a \<and> y0 b \<le> y0 a \<and> x1 a \<le> x1 b \<and> y1 a \<le> y1 b"

definition stable :: "real \<Rightarrow> rect set \<Rightarrow> bool" where
  "stable t F \<longleftrightarrow> (\<forall>f \<in> F. \<forall>g \<in> F. near t f g \<longrightarrow> f = g)"

definition covered :: "rect set \<Rightarrow> rect set \<Rightarrow> bool" where
  "covered X F \<longleftrightarrow> (\<forall>x \<in> X. \<exists>f \<in> F. inside x f)"

definition no_near_pair :: "real \<Rightarrow> rect list \<Rightarrow> bool" where
  "no_near_pair t rects \<longleftrightarrow> (\<forall>i < length rects. \<forall>j < i. \<not> near t (rects ! i) (rects ! j))"

section \<open>Tasks and the run endpoint (models.py, routes.py)\<close>

record task =
  project_id :: nat
  task_type :: string
  user_prompt :: string
  status :: string
  status_message :: "string option"
  outline_json :: "string option"
  final_markdown_content :: "string option"
  final_content :: "string option"

text \<open>The Task table, by primary key.\<close>

type_synonym task_db = "nat \<rightharpoonup> task"

definition startswith :: "string \<Rightarrow> string \<Rightarrow> bool" where
  "startswith s p \<longleftrightarrow> take (length p) s = p"

text \<open>
  The server as far as \<open>run_task\<close> sees it: the table, and the ids of the tasks for
  which a background thread running \<open>run_report_writing_task\<close> has been started.
  The answer is the HTTP status and the message of the JSON body.
\<close>

record server =
  tasks :: task_db
  threads :: "nat list"

definition run_task :: "server \<Rightarrow> nat \<Rightarrow> (nat \<times> string) \<times> server" where
  "run_task srv task_id =
     (case tasks srv task_id of
        None \<Rightarrow> ((404, ''Not Found''), srv)
      | Some task \<Rightarrow>
          if startswith (status task) ''writing'' \<or> startswith (status task) ''generating''
          then ((409, ''Task is already running''), srv)
          else if task_type task = ''report_writing''
          then ((202, ''Report generation task started.''),
                srv\<lparr>threads := threads srv @ [task_id]\<rparr>)
          else ((400, ''Unknown task type''), srv))"

section \<open>The task orchestrator (agent\_logic.py)\<close>

text \<open>\<open>_update_task_status\<close>: nothing happens when the row is gone; the message is
  written only when it is truthy (neither \<open>None\<close> nor the empty string).\<close>

definition update_task_status :: "task_db \<Rightarrow> nat \<Rightarrow> string \<Rightarrow> string option \<Rightarrow> task_db" where
  "update_task_status db task_id new_status message =
     (case db task_id of
        None \<Rightarrow> db
      | Some task \<Rightarrow>
          db(task_id \<mapsto> task\<lparr>status := new_status,
                                status_message :=
                                  (case message of
                                     None \<Rightarrow> status_message task
                                   | Some m \<Rightarrow> if m \<noteq> [] then Some m else status_message task)\<rparr>))"

text \<open>\<open>str.find\<close> and \<open>str.rfind\<close> for a one-character pattern: the index, or \<open>-1\<close>.\<close>

fun find_char :: "char \<Rightarrow> string \<Rightarrow> int" where
  "find_char c [] = - 1"
| "find_char c (x # xs) =
     (if x = c then 0 else (let r = find_char c xs in if r = - 1 then - 1 else r + 1))"

definition rfind_char :: "char \<Rightarrow> string \<Rightarrow> int" where
  "rfind_char c s =
     (let r = find_char c (rev s) in if r = - 1 then - 1 else int (length s) - 1 - r)"

text \<open>The slice \<open>s[a : b]\<close> for \<open>0 \<le> a \<le> b\<close>.\<close>

definition slice :: "string \<Rightarrow> int \<Rightarrow> int \<Rightarrow> string" where
  "slice s a b = take (nat (b - a)) (drop (nat a) s)"

text \<open>\<open>json_str.replace('\\', '\\\\')\<close>: every backslash (code \<open>0x5C\<close>) becomes two.\<close>

definition escape_backslashes :: "string \<Rightarrow> string" where
  "escape_backslashes s = concat (map (\<lambda>c. if c = CHR 0x5C then [CHR 0x5C, CHR 0x5C] else [c]) s)"

definition extract_json_from_llm_response :: "string \<Rightarrow> string" where
  "extract_json_from_llm_response raw_response =
     (let start_index = find_char CHR ''{'' raw_response;
          end_index = rfind_char CHR ''}'' raw_response
      in if start_index \<noteq> - 1 \<and> end_index \<noteq> - 1 \<and> end_index > start_index
         then escape_backslashes (slice raw_response start_index (end_index + 1))
         else raw_response)"

text \<open>
  What the run calls is a parameter: the context assembler (\<open>_gather_context\<close>,
  modelled on its own further down), the chat model, the prompt templates, Python's
  \<open>json\<close> and the operations
  on the parsed value \<open>'v\<close> (\<open>.get('sections', [])\<close>, truthiness, \<open>len\<close> and iteration,
  subscripts, the text an f-string gives, hashability as a dict key), the project's
  BibTeX entries, writing the \<open>.bib\<close> file, and pandoc. Each call that can raise returns
  \<open>exn + _\<close>.
\<close>

record 'v agent_env =
  gather_context_call :: "nat \<Rightarrow> string \<Rightarrow> exn + string"
  chat_call :: "string \<Rightarrow> exn + string"
  outline_prompt :: "string \<Rightarrow> string \<Rightarrow> string"
  section_prompt :: "string \<Rightarrow> string \<Rightarrow> string \<Rightarrow> string \<Rightarrow> string \<Rightarrow> string"
  json_loads_call :: "string \<Rightarrow> exn + 'v"
  get_sections :: "'v \<Rightarrow> exn + 'v"
  truthy :: "'v \<Rightarrow> bool"
  items :: "'v \<Rightarrow> exn + 'v list"
  subscript :: "'v \<Rightarrow> string \<Rightarrow> exn + 'v"
  format :: "'v \<Rightarrow> string"
  hashable :: "'v \<Rightarrow> bool"
  bibtex_entries :: "string option list"
  write_bib :: "string \<Rightarrow> exn + unit"
  pandoc :: "string \<Rightarrow> exn + string"

text \<open>
  The inner \<open>try\<close> of the outline step: \<open>json.loads\<close>, \<open>outline.get('sections', [])\<close>
  and the emptiness check; a \<open>JSONDecodeError\<close> raised there is replaced by a
  \<open>ValueError\<close> with the fixed text, anything else passes.
\<close>

definition except_JSONDecodeError :: "exn + 'a \<Rightarrow> exn + 'a" where
  "except_JSONDecodeError r =
     (case r of
        Inl e \<Rightarrow>
          if exn_cls e = JSONDecodeError
          then Inl (Exn ValueError
                 ''The language model failed to return a valid JSON object for the report outline.'')
          else Inl e
      | Inr x \<Rightarrow> Inr x)"

definition parse_outline :: "'v agent_env \<Rightarrow> string \<Rightarrow> exn + 'v" where
  "parse_outline env cleaned_json_str =
     except_JSONDecodeError
       (case json_loads_call env cleaned_json_str of
          Inl e \<Rightarrow> Inl e
        | Inr outline \<Rightarrow>
            (case get_sections env outline of
               Inl e \<Rightarrow> Inl e
             | Inr sections \<Rightarrow>
                 if \<not> truthy env sections
                 then Inl (Exn ValueError
                        (''LLM returned valid JSON, but the '' @ [CHR 0x27] @ ''sections''
                         @ [CHR 0x27] @ '' array is missing or empty.''))
                 else Inr sections))"

text \<open>The running "report context" of section \<open>i\<close>: the loop over \<open>enumerate(sections)\<close>,
  \<open>j\<close> counting the sections already passed.\<close>

fun report_context ::
  "'v agent_env \<Rightarrow> ('v \<rightharpoonup> string) \<Rightarrow> nat \<Rightarrow> nat \<Rightarrow> 'v list \<Rightarrow> string \<Rightarrow> exn + string" where
  "report_context env generated i j [] acc = Inr acc"
| "report_context env generated i j (s # rest) acc =
     (case subscript env s ''title'' of
        Inl e \<Rightarrow> Inl e
      | Inr title \<Rightarrow>
          if i = j then
            (case subscript env s ''description'' of
               Inl e \<Rightarrow> Inl e
             | Inr description \<Rightarrow>
                 report_context env generated i (Suc j) rest
                   (acc @ ''## '' @ format env title @ [CHR 0x0A] @ ''--> YOU ARE HERE <--''
                    @ [CHR 0x0A] @ ''Description: '' @ format env description
                    @ [CHR 0x0A, CHR 0x0A]))
          else if j < i then
            (if \<not> hashable env title then Inl (Exn TypeError ''unhashable type'')
             else case generated title of
               None \<Rightarrow> Inl (Exn KeyError (format env title))
             | Some content \<Rightarrow>
                 report_context env generated i (Suc j) rest
                   (acc @ ''## '' @ format env title @ [CHR 0x0A] @ content
                    @ [CHR 0x0A, CHR 0x0A]))
          else
            (case subscript env s ''description'' of
               Inl e \<Rightarrow> Inl e
             | Inr description \<Rightarrow>
                 report_context env generated i (Suc j) rest
                   (acc @ ''## '' @ format env title @ [CHR 0x0A] @ ''Description: ''
                    @ format env description @ [CHR 0x0A, CHR 0x0A])))"

text \<open>The body of one iteration of the section loop after the status update: the new
  entry of \<open>generated_sections_content\<close> and the part appended to the report body.\<close>

definition write_section ::
  "'v agent_env \<Rightarrow> string \<Rightarrow> string \<Rightarrow> 'v list \<Rightarrow> ('v \<rightharpoonup> string) \<Rightarrow> nat \<Rightarrow> 'v
     \<Rightarrow> exn + ('v \<times> string \<times> string)" where
  "write_section env prompt context_str sections generated i section =
     (case report_context env generated i 0 sections [] of
        Inl e \<Rightarrow> Inl e
      | Inr ctx \<Rightarrow>
          (case subscript env section ''title'' of
             Inl e \<Rightarrow> Inl e
           | Inr title \<Rightarrow>
               (case subscript env section ''description'' of
                  Inl e \<Rightarrow> Inl e
                | Inr description \<Rightarrow>
                    (case chat_call env
                            (section_prompt env prompt ctx (format env title)
                               (format env description) context_str) of
                       Inl e \<Rightarrow> Inl e
                     | Inr section_content \<Rightarrow>
                         if \<not> hashable env title then Inl (Exn TypeError ''unhashable type'')
                         else Inr (title, section_content,
                                   ''## '' @ format env title @ [CHR 0x0A] @ section_content
                                   @ [CHR 0x0A])))))"

text \<open>The section loop. \<open>i\<close> is the index of the next section, \<open>todo\<close> the sections from
  \<open>i\<close> on; every iteration first commits the status \<open>writing_section_{i+1}_of_{n}\<close>.
  The result carries the table as it is when the loop ends or raises.\<close>

fun write_sections ::
  "'v agent_env \<Rightarrow> nat \<Rightarrow> string \<Rightarrow> string \<Rightarrow> 'v list \<Rightarrow> nat \<Rightarrow> 'v list \<Rightarrow> ('v \<rightharpoonup> string)
     \<Rightarrow> string list \<Rightarrow> task_db \<Rightarrow> (exn + string list) \<times> task_db" where
  "write_sections env task_id prompt context_str sections i [] generated parts db = (Inr parts, db)"
| "write_sections env task_id prompt context_str sections i (section # todo) generated parts db =
     (let db1 = update_task_status db task_id
                  (''writing_section_'' @ str_nat (i + 1) @ ''_of_'' @ str_nat (length sections))
                  None
      in case write_section env prompt context_str sections generated i section of
           Inl e \<Rightarrow> (Inl e, db1)
         | Inr (title, section_content, part) \<Rightarrow>
             write_sections env task_id prompt context_str sections (Suc i) todo
               (generated(title \<mapsto> section_content)) (parts @ [part]) db1)"

text \<open>\<open>sep.join(xs)\<close>; an element \<open>None\<close> raises TypeError.\<close>

fun join :: "string \<Rightarrow> string list \<Rightarrow> string" where
  "join sep [] = []"
| "join sep [x] = x"
| "join sep (x # y # ys) = x @ sep @ join sep (y # ys)"

definition join_entries :: "string \<Rightarrow> string option list \<Rightarrow> exn + string" where
  "join_entries sep xs =
     (if None \<in> set xs then Inl (Exn TypeError ''sequence item: expected str instance, NoneType found'')
      else Inr (join sep (map the xs)))"

text \<open>An assignment to a column of the task followed by \<open>db.session.commit()\<close>.\<close>

definition commit_task :: "task_db \<Rightarrow> nat \<Rightarrow> (task \<Rightarrow> task) \<Rightarrow> task_db" where
  "commit_task db task_id f = (case db task_id of None \<Rightarrow> db | Some task \<Rightarrow> db(task_id \<mapsto> f task))"

text \<open>
  The \<open>try\<close> block of \<open>run_report_writing_task\<close>. The result is what the block did
  (\<open>Inl e\<close>: it raised \<open>e\<close>) and the table as committed at that moment.
\<close>

definition run_steps :: "'v agent_env \<Rightarrow> nat \<Rightarrow> task_db \<Rightarrow> (exn + unit) \<times> task_db" where
  "run_steps env task_id db =
     (case db task_id of
        None \<Rightarrow> (Inr (), db)
      | Some task \<Rightarrow>
          (let db1 = update_task_status db task_id ''gathering_context'' None in
           case gather_context_call env (project_id task) (user_prompt task) of
             Inl e \<Rightarrow> (Inl e, db1)
           | Inr context_str \<Rightarrow>
          (let db2 = update_task_status db1 task_id ''generating_outline'' None in
           case chat_call env (outline_prompt env (user_prompt task) context_str) of
             Inl e \<Rightarrow> (Inl e, db2)
           | Inr raw_llm_output \<Rightarrow>
          (let cleaned_json_str = extract_json_from_llm_response raw_llm_output in
           case parse_outline env cleaned_json_str of
             Inl e \<Rightarrow> (Inl e, db2)
           | Inr sections_value \<Rightarrow>
          (let db3 = commit_task db2 task_id (\<lambda>t. t\<lparr>outline_json := Some cleaned_json_str\<rparr>) in
           case items env sections_value of
             Inl e \<Rightarrow> (Inl e, db3)
           | Inr sections \<Rightarrow>
          (case write_sections env task_id (user_prompt task) context_str sections 0 sections
                  Map.empty [] db3 of
             (Inl e, db4) \<Rightarrow> (Inl e, db4)
           | (Inr report_body_parts, db4) \<Rightarrow>
          (let db5 = update_task_status db4 task_id ''assembling_report'' None;
               full_markdown_content = join [CHR 0x0A] report_body_parts;
               db6 = commit_task db5 task_id
                       (\<lambda>t. t\<lparr>final_markdown_content := Some full_markdown_content\<rparr>)
           in
           case join_entries [CHR 0x0A, CHR 0x0A] (bibtex_entries env) of
             Inl e \<Rightarrow> (Inl e, db6)
           | Inr project_bib_content \<Rightarrow>
          (case write_bib env project_bib_content of
             Inl e \<Rightarrow> (Inl e, db6)
           | Inr u \<Rightarrow>
          (case pandoc env full_markdown_content of
             Inl e \<Rightarrow> (Inl e, db6)
           | Inr final_latex_content \<Rightarrow>
               (Inr (),
                update_task_status
                  (commit_task db6 task_id (\<lambda>t. t\<lparr>final_content := Some final_latex_content\<rparr>))
                  task_id ''complete'' None))))))))))"

text \<open>The whole function: \<open>except Exception as e: _update_task_status(task_id, "failed", str(e))\<close>.\<close>

definition run_report_writing_task :: "'v agent_env \<Rightarrow> nat \<Rightarrow> task_db \<Rightarrow> task_db" where
  "run_report_writing_task env task_id db =
     (case run_steps env task_id db of
        (Inl e, db') \<Rightarrow> update_task_status db' task_id ''failed'' (Some (exn_str e))
      | (Inr u, db') \<Rightarrow> db')"

text \<open>
  Two environments for concrete runs, over parsed values that are plain strings. In the
  first the context assembler raises an exception whose \<open>str\<close> is empty (a failed
  \<open>assert\<close>, as the faiss wrapper raises on a query of the wrong dimension). In the
  second the outline is produced and parsed, and the chat call of the first section fails.
\<close>

definition env_gather_fails :: "string agent_env" where
  "env_gather_fails =
     \<lparr>gather_context_call = (\<lambda>p q. Inl (Exn AssertionError [])),
      chat_call = (\<lambda>p. Inr ''{}''),
      outline_prompt = (\<lambda>u c. ''outline''),
      section_prompt = (\<lambda>u r t d c. ''section''),
      json_loads_call = (\<lambda>s. Inr s),
      get_sections = (\<lambda>v. Inr v),
      truthy = (\<lambda>v. True),
      items = (\<lambda>v. Inr [v]),
      subscript = (\<lambda>v k. Inr k),
      format = (\<lambda>v. v),
      hashable = (\<lambda>v. True),
      bibtex_entries = [],
      write_bib = (\<lambda>b. Inr ()),
      pandoc = (\<lambda>m. Inr m)\<rparr>"

definition env_section_fails :: "string agent_env" where
  "env_section_fails =
     env_gather_fails
       \<lparr>gather_context_call := (\<lambda>p q. Inr ''context''),
        chat_call := (\<lambda>p. if p = ''outline'' then Inr ''Here it is: {}''
                            else Inl (Exn ResponseError ''model not found''))\<rparr>"

definition queued_task :: task where
  "queued_task =
     \<lparr>project_id = 1, task_type = ''report_writing'', user_prompt = ''survey'',
      status = ''queued'', status_message = None, outline_json = None,
      final_markdown_content = None, final_content = None\<rparr>"

section \<open>Searching the index (llm\_logic.py, agent\_logic.py)\<close>

text \<open>The squared Euclidean distance, and the stored positions ordered by their
  distance to a query (positions at equal distance in insertion order).\<close>

definition sqdist :: "real list \<Rightarrow> real list \<Rightarrow> real" where
  "sqdist x y = sum_list (map2 (\<lambda>a b. (a - b)\<^sup>2) x y)"

definition nearest_first :: "faiss_index \<Rightarrow> real list \<Rightarrow> nat list" where
  "nearest_first ix q = sort_key (\<lambda>p. sqdist (xb ix ! p) q) [0 ..< ntotal ix]"

text \<open>
  Modelled from the spec: \<open>IndexFlatL2.search\<close> belongs to the faiss library, whose
  code is not among the sources. For one query row it gives the \<open>k\<close> stored positions
  nearest to the query by Euclidean distance, nearest first, and the label \<open>-1\<close> for
  every slot beyond the number of stored vectors. The wrapper asserts that the query has
  the index's dimension and that \<open>k > 0\<close>. Distances are computed over the reals here.
\<close>

definition index_search :: "faiss_index \<Rightarrow> real list \<Rightarrow> nat \<Rightarrow> exn + int list" where
  "index_search ix q k =
     (if length q \<noteq> dim ix then Inl (Exn AssertionError [])
      else if k = 0 then Inl (Exn AssertionError [])
      else Inr (map int (take k (nearest_first ix q)) @ replicate (k - ntotal ix) (- 1)))"

text \<open>What the two callers use besides the files: the embedding and chat calls, the
  configured \<open>RAG_TOP_K\<close>, the cast to float32, the prompt template, the exception that
  \<open>faiss.read_index\<close> raises for a file that does not exist, and the order in which
  Python iterates over the set of context items.\<close>

record rag_env =
  embed :: "string \<Rightarrow> exn + real list"
  chat :: "string \<Rightarrow> exn + string"
  RAG_TOP_K :: nat
  to_f32 :: "real \<Rightarrow> real"
  rag_prompt :: "string \<Rightarrow> string \<Rightarrow> string"
  read_index_missing :: exn
  set_order :: "(nat \<times> string) set \<Rightarrow> (nat \<times> string) list"

text \<open>\<open>[mapping[str(i)]['chunk_text'] for i in indices[0]]\<close>\<close>

fun relevant_chunks :: "mapping \<Rightarrow> int list \<Rightarrow> exn + string list" where
  "relevant_chunks m [] = Inr []"
| "relevant_chunks m (i # rest) =
     (case dict_get m (str_int i) of
        Inl e \<Rightarrow> Inl e
      | Inr item \<Rightarrow>
          (case relevant_chunks m rest of
             Inl e \<Rightarrow> Inl e
           | Inr chunks \<Rightarrow> Inr (chunk_text item # chunks)))"

text \<open>Steps 3 and 4 of \<open>answer_question\<close>: \<open>k = min(RAG_TOP_K, index.ntotal)\<close>, the
  search, and the lookup of the chunks.\<close>

definition knn_chunks :: "rag_env \<Rightarrow> faiss_index \<Rightarrow> mapping \<Rightarrow> real list \<Rightarrow> exn + string list" where
  "knn_chunks env index m question_embedding =
     (let k = min (RAG_TOP_K env) (ntotal index) in
      case index_search index (map (to_f32 env) question_embedding) k of
        Inl e \<Rightarrow> Inl e
      | Inr indices \<Rightarrow> relevant_chunks m indices)"

definition answer_question :: "rag_env \<Rightarrow> project_files \<Rightarrow> string \<Rightarrow> exn + string" where
  "answer_question env fs question =
     (case index_file fs of
        None \<Rightarrow> Inr ''This project has no documents to search.''
      | Some index \<Rightarrow>
          (case mapping_file fs of
             None \<Rightarrow> Inl (Exn FileNotFoundError ''mapping.json'')
           | Some m \<Rightarrow>
               (case embed env question of
                  Inl e \<Rightarrow> Inl (Exn RuntimeError (''Failed to embed question: '' @ exn_str e))
                | Inr question_embedding \<Rightarrow>
                    (case knn_chunks env index m question_embedding of
                       Inl e \<Rightarrow> Inl e
                     | Inr chunks \<Rightarrow>
                         (case chat env
                                 (rag_prompt env question
                                    (join ([CHR 0x0A] @ ''---'' @ [CHR 0x0A]) chunks)) of
                            Inl e \<Rightarrow>
                              Inl (Exn RuntimeError
                                     (''Failed to generate answer with LLM: '' @ exn_str e))
                          | Inr answer \<Rightarrow> Inr answer)))))"

text \<open>Documents and figures as \<open>_gather_context\<close> reads them. A nullable column is an
  option; an f-string prints \<open>None\<close> for it.\<close>

record figure =
  fig_name :: "string option"
  fig_page_number :: nat
  fig_description :: "string option"
  fig_analysis :: "string option"

record document =
  doc_pk :: nat
  doc_project_id :: nat
  filename :: string
  document_type :: string
  title :: string
  description :: string
  bibtex_key :: "string option"
  bibtex_author :: string
  bibtex_year :: string
  bibtex_full_entry :: string
  figures :: "figure list"

definition py_str :: "string option \<Rightarrow> string" where
  "py_str x = (case x of None \<Rightarrow> ''None'' | Some s \<Rightarrow> s)"

definition analysis_text :: "figure \<Rightarrow> string" where
  "analysis_text fig =
     ''Figure named '' @ [CHR 0x27] @ py_str (fig_name fig) @ [CHR 0x27] @ '' on page ''
     @ str_nat (fig_page_number fig) @ ''. Description: '' @ py_str (fig_description fig)
     @ ''. Analysis: '' @ py_str (fig_analysis fig)"

definition figure_analyses :: "document list \<Rightarrow> (string \<times> nat) list" where
  "figure_analyses docs = concat (map (\<lambda>doc. map (\<lambda>fig. (analysis_text fig, doc_pk doc)) (figures doc)) docs)"

text \<open>A list comprehension over a call that can raise.\<close>

fun map_raise :: "('a \<Rightarrow> exn + 'b) \<Rightarrow> 'a list \<Rightarrow> exn + 'b list" where
  "map_raise f [] = Inr []"
| "map_raise f (x # xs) =
     (case f x of
        Inl e \<Rightarrow> Inl e
      | Inr y \<Rightarrow> (case map_raise f xs of Inl e \<Rightarrow> Inl e | Inr ys \<Rightarrow> Inr (y # ys)))"

text \<open>\<open>xs[i]\<close> for a Python list: a negative index counts from the end.\<close>

definition py_index :: "'a list \<Rightarrow> int \<Rightarrow> exn + 'a" where
  "py_index xs i =
     (if 0 \<le> i \<and> i < int (length xs) then Inr (xs ! nat i)
      else if i < 0 \<and> - int (length xs) \<le> i then Inr (xs ! nat (int (length xs) + i))
      else Inl (Exn IndexError ''list index out of range''))"

text \<open>The text search of \<open>_gather_context\<close>: the search with \<open>k = top_k\<close> and the
  text-result loop, from an empty set of context items.\<close>

definition text_search :: "rag_env \<Rightarrow> faiss_index \<Rightarrow> mapping \<Rightarrow> real list \<Rightarrow> exn + (nat \<times> string) set" where
  "text_search env text_index text_mapping prompt_embedding =
     (case index_search text_index prompt_embedding (RAG_TOP_K env) of
        Inl e \<Rightarrow> Inl e
      | Inr text_indices \<Rightarrow> text_results text_mapping text_indices {})"

fun figure_results ::
  "(string \<times> nat) list \<Rightarrow> int list \<Rightarrow> (nat \<times> string) set \<Rightarrow> exn + (nat \<times> string) set" where
  "figure_results analyses [] context_items = Inr context_items"
| "figure_results analyses (idx # rest) context_items =
     (case py_index analyses idx of
        Inl e \<Rightarrow> Inl e
      | Inr item \<Rightarrow>
          figure_results analyses rest
            (insert (snd item, ''Relevant Figure Analysis:'' @ [CHR 0x0A] @ fst item) context_items))"

text \<open>Step 1: both files are read inside \<open>try\<close>; \<open>FileNotFoundError\<close> is replaced by
  the RuntimeError of the source, any other exception passes.\<close>

definition load_text_index :: "rag_env \<Rightarrow> project_files \<Rightarrow> exn + faiss_index \<times> mapping" where
  "load_text_index env fs =
     (case (case index_file fs of
              None \<Rightarrow> Inl (read_index_missing env)
            | Some ix \<Rightarrow>
                (case mapping_file fs of
                   None \<Rightarrow> Inl (Exn FileNotFoundError ''mapping.json'')
                 | Some m \<Rightarrow> Inr (ix, m)))
      of
        Inl e \<Rightarrow>
          if exn_cls e = FileNotFoundError
          then Inl (Exn RuntimeError ''Project text index not found. Please add documents.'')
          else Inl e
      | Inr r \<Rightarrow> Inr r)"

text \<open>Step 4: one block per context item whose document is still in the project.\<close>

fun format_context :: "document list \<Rightarrow> (nat \<times> string) list \<Rightarrow> string" where
  "format_context docs [] = []"
| "format_context docs ((d, content) # rest) =
     (case find (\<lambda>doc. doc_pk doc = d) (rev docs) of
        None \<Rightarrow> format_context docs rest
      | Some doc \<Rightarrow>
          ''--- SOURCE START ---'' @ [CHR 0x0A]
          @ ''Document Filename: '' @ filename doc @ [CHR 0x0A]
          @ ''Citation Key: '' @ py_str (bibtex_key doc) @ [CHR 0x0A, CHR 0x0A]
          @ content @ [CHR 0x0A]
          @ ''--- SOURCE END ---'' @ [CHR 0x0A, CHR 0x0A]
          @ format_context docs rest)"

definition gather_context :: "rag_env \<Rightarrow> document list \<Rightarrow> project_files \<Rightarrow> string \<Rightarrow> exn + string" where
  "gather_context env docs fs prompt =
     (case load_text_index env fs of
        Inl e \<Rightarrow> Inl e
      | Inr (text_index, text_mapping) \<Rightarrow>
     (let analyses = figure_analyses docs in
      case (if analyses \<noteq> []
            then (case map_raise (embed env) (map fst analyses) of
                    Inl e \<Rightarrow> Inl e
                  | Inr embs \<Rightarrow>
                      (case index_add (to_f32 env) \<lparr>dim = length (hd embs), xb = []\<rparr> embs of
                         Inl e \<Rightarrow> Inl e
                       | Inr figure_index \<Rightarrow> Inr (Some figure_index)))
            else Inr None)
      of
        Inl e \<Rightarrow> Inl e
      | Inr figure_index \<Rightarrow>
     (case embed env prompt of
        Inl e \<Rightarrow> Inl e
      | Inr emb \<Rightarrow>
     (let prompt_embedding = map (to_f32 env) emb in
      case text_search env text_index text_mapping prompt_embedding of
        Inl e \<Rightarrow> Inl e
      | Inr text_items \<Rightarrow>
     (case (case figure_index of
              None \<Rightarrow> Inr text_items
            | Some fi \<Rightarrow>
                (case index_search fi prompt_embedding (RAG_TOP_K env) of
                   Inl e \<Rightarrow> Inl e
                 | Inr fig_indices \<Rightarrow> figure_results analyses fig_indices text_items))
      of
        Inl e \<Rightarrow> Inl e
      | Inr context_items \<Rightarrow> Inr (format_context docs (set_order env context_items)))))))"

text \<open>
  An environment and project files for concrete runs: one-dimensional embeddings, every
  text embedded as \<open>[4]\<close>, a chat model that answers with the sentence
  \<open>answer_question\<close> itself uses for a project without index, and a project with the
  two chunks \<open>a\<close> (vector \<open>[0]\<close>) and \<open>b\<close> (vector \<open>[5]\<close>).
\<close>

definition env_example :: rag_env where
  "env_example =
     \<lparr>embed = (\<lambda>s. Inr [4]),
      chat = (\<lambda>p. Inr ''This project has no documents to search.''),
      RAG_TOP_K = 1,
      to_f32 = (\<lambda>x. x),
      rag_prompt = (\<lambda>question context. context @ question),
      read_index_missing = Exn RuntimeError ''could not open docs.index for reading'',
      set_order = (\<lambda>S. filter (\<lambda>x. x \<in> S)
                     [(1, ''Relevant Text Snippet:'' @ [CHR 0x0A] @ ''a''),
                      (1, ''Relevant Text Snippet:'' @ [CHR 0x0A] @ ''b'')])\<rparr>"

definition index_example :: faiss_index where
  "index_example = \<lparr>dim = 1, xb = [[0], [5]]\<rparr>"

definition mapping_example :: mapping where
  "mapping_example = [''0'' \<mapsto> \<lparr>doc_id = 1, chunk_text = ''a''\<rparr>,
                      ''1'' \<mapsto> \<lparr>doc_id = 1, chunk_text = ''b''\<rparr>]"

section \<open>Ingestion and the bibliographic key (llm\_logic.py, models.py)\<close>

text \<open>\<open>s.split(' ')[0]\<close>: the text before the first space (empty when \<open>s\<close> starts with
  a space or is empty).\<close>

definition first_word :: "string \<Rightarrow> string" where
  "first_word s = takeWhile (\<lambda>c. c \<noteq> CHR '' '') s"

text \<open>\<open>str.capitalize()\<close> on ASCII text: the first character in upper case, the others
  in lower case; a character that is not an ASCII letter is kept.\<close>

definition ascii_upper :: "char \<Rightarrow> char" where
  "ascii_upper c =
     (case map_of (zip ''abcdefghijklmnopqrstuvwxyz'' ''ABCDEFGHIJKLMNOPQRSTUVWXYZ'') c of
        None \<Rightarrow> c | Some u \<Rightarrow> u)"

definition ascii_lower :: "char \<Rightarrow> char" where
  "ascii_lower c =
     (case map_of (zip ''ABCDEFGHIJKLMNOPQRSTUVWXYZ'' ''abcdefghijklmnopqrstuvwxyz'') c of
        None \<Rightarrow> c | Some l \<Rightarrow> l)"

definition capitalize :: "string \<Rightarrow> string" where
  "capitalize s = (case s of [] \<Rightarrow> [] | c # cs \<Rightarrow> ascii_upper c # map ascii_lower cs)"

text \<open>\<open>metadata.get(key, default)\<close> on the parsed reply, a dict of strings.\<close>

definition get_default :: "(string \<rightharpoonup> string) \<Rightarrow> string \<Rightarrow> string \<Rightarrow> string" where
  "get_default metadata key dflt = (case metadata key of None \<Rightarrow> dflt | Some v \<Rightarrow> v)"

definition make_bib_key :: "string \<Rightarrow> string \<Rightarrow> string \<Rightarrow> string" where
  "make_bib_key author year title_text =
     (let author_lastname = (if author \<noteq> [] then capitalize (first_word author) else ''Unknown'');
          title_firstword = (if title_text \<noteq> [] then capitalize (first_word title_text) else ''Title'')
      in author_lastname @ year @ ''_'' @ title_firstword)"

text \<open>One line \<open>    name = "value"\<close> of the BibTeX entry, without its end of line.\<close>

definition bib_field :: "string \<Rightarrow> string \<Rightarrow> string" where
  "bib_field name v = ''    '' @ name @ '' = '' @ [CHR 0x22] @ v @ [CHR 0x22]"

definition make_bibtex_entry ::
  "string \<Rightarrow> (string \<rightharpoonup> string) \<Rightarrow> string \<Rightarrow> string \<Rightarrow> string \<Rightarrow> string \<Rightarrow> string" where
  "make_bibtex_entry doc_type metadata bib_key author title_text year =
     (if doc_type = ''journal_article''
      then ''@article{'' @ bib_key @ '','' @ [CHR 0x0A]
           @ bib_field ''author '' author @ '','' @ [CHR 0x0A]
           @ bib_field ''title  '' title_text @ '','' @ [CHR 0x0A]
           @ bib_field ''journal'' (get_default metadata ''journal'' []) @ '','' @ [CHR 0x0A]
           @ bib_field ''year   '' year @ '','' @ [CHR 0x0A]
           @ bib_field ''volume '' (get_default metadata ''volume'' []) @ '','' @ [CHR 0x0A]
           @ bib_field ''pages  '' (get_default metadata ''pages'' []) @ [CHR 0x0A]
           @ ''}''
      else ''@misc{'' @ bib_key @ '','' @ [CHR 0x0A]
           @ bib_field ''author '' author @ '','' @ [CHR 0x0A]
           @ bib_field ''title  '' title_text @ '','' @ [CHR 0x0A]
           @ bib_field ''year   '' year @ '','' @ [CHR 0x0A]
           @ bib_field ''howpublished'' (get_default metadata ''howpublished'' []) @ [CHR 0x0A]
           @ ''}'')"

text \<open>
  \<open>db.session.add(new_doc); db.session.commit()\<close> on the Document table. The column
  \<open>bibtex_key\<close> is declared \<open>unique=True\<close>: the commit raises IntegrityError when a
  stored document, of whatever project, has the same key (NULL keys never collide).
  The primary key is the next free integer.
\<close>

definition next_pk :: "document list \<Rightarrow> nat" where
  "next_pk docs = Suc (fold max (map doc_pk docs) 0)"

definition insert_document :: "document list \<Rightarrow> document \<Rightarrow> exn + document list" where
  "insert_document docs d =
     (if bibtex_key d \<noteq> None \<and> bibtex_key d \<in> set (map bibtex_key docs)
      then Inl (Exn IntegrityError ''UNIQUE constraint failed: document.bibtex_key'')
      else Inr (docs @ [d\<lparr>doc_pk := next_pk docs\<rparr>]))"

text \<open>
  \<open>process_and_embed_document\<close>. \<open>chunks\<close> is what \<open>load_and_split_document\<close> returned
  and \<open>metadata\<close> the outcome of the chat call followed by \<open>json.loads\<close>. The state is
  the Document table and the project's two index files; it is returned as it is when the
  function returns or raises. The figure step is left out: it is wrapped in
  \<open>try/except\<close>, and touches neither the Document table nor the index.
\<close>

definition process_and_embed_document ::
  "rag_env \<Rightarrow> document list \<times> project_files \<Rightarrow> nat \<Rightarrow> string list
     \<Rightarrow> exn + (string \<rightharpoonup> string) \<Rightarrow> string \<Rightarrow> string
     \<Rightarrow> (exn + document) \<times> (document list \<times> project_files)" where
  "process_and_embed_document env st project doc_chunks metadata_reply doc_type fname =
     (case st of (docs, fs) \<Rightarrow>
      if doc_chunks = [] then (Inl (Exn ValueError ''Could not read or process the document.''), st)
      else
     (case metadata_reply of
        Inl e \<Rightarrow> (Inl (Exn RuntimeError (''Failed to get metadata from LLM: '' @ exn_str e)), st)
      | Inr metadata \<Rightarrow>
     (let title_text = get_default metadata ''title'' ''Untitled'';
          author = get_default metadata ''author'' [];
          year = get_default metadata ''year'' [];
          bib_key = make_bib_key author year title_text;
          new_doc = \<lparr>doc_pk = 0, doc_project_id = project, filename = fname,
                     document_type = doc_type, title = title_text,
                     description = get_default metadata ''description'' [],
                     bibtex_key = Some bib_key, bibtex_author = author, bibtex_year = year,
                     bibtex_full_entry =
                       make_bibtex_entry doc_type metadata bib_key author title_text year,
                     figures = []\<rparr>
      in case insert_document docs new_doc of
           Inl e \<Rightarrow> (Inl e, st)
         | Inr docs' \<Rightarrow>
     (case map_raise (embed env) doc_chunks of
        Inl e \<Rightarrow>
          (Inl (Exn RuntimeError (''Failed to create embeddings with Ollama: '' @ exn_str e)),
           (docs', fs))
      | Inr embeddings \<Rightarrow>
     (case update_faiss_index (to_f32 env) fs (doc_pk (last docs')) doc_chunks embeddings of
        Inl e \<Rightarrow> (Inl e, (docs', fs))
      | Inr fs' \<Rightarrow> (Inr (last docs'), (docs', fs')))))))"

text \<open>The stored documents have pairwise different keys (NULL keys apart).\<close>

definition unique_keys :: "document list \<Rightarrow> bool" where
  "unique_keys docs \<longleftrightarrow> distinct (filter (\<lambda>k. k \<noteq> None) (map bibtex_key docs))"

text \<open>The key in the words of the specification: first author's surname, year,
  separator, first word of the title.\<close>

definition spec_bib_key :: "string \<Rightarrow> string \<Rightarrow> string \<Rightarrow> string" where
  "spec_bib_key surname year first_title_word = surname @ year @ ''_'' @ first_title_word"

text \<open>The metadata of a concrete ingestion.\<close>

definition metadata_example :: "string \<rightharpoonup> string" where
  "metadata_example = [''author'' \<mapsto> ''Smith and Jones'', ''year'' \<mapsto> ''2024'',
                       ''title'' \<mapsto> ''DNA repair'']"

section \<open>Python's json.loads, for the outline extraction\<close>

text \<open>
  \<open>_extract_json_from_llm_response\<close> prepares text for \<open>json.loads\<close>, so what the
  extraction achieves can only be said against a JSON reader. This is the reader of
  Python's \<open>json\<close> module with its defaults (\<open>strict=True\<close>, the constants \<open>NaN\<close>,
  \<open>Infinity\<close> and \<open>-Infinity\<close> accepted), in two passes: characters to tokens, tokens
  to a value. A string value is its list of code points; a number keeps its literal
  text (Python turns it into an \<open>int\<close> or a \<open>float\<close>); an object keeps its members in
  the order of the text (Python's dict keeps the last value of a repeated key).
\<close>

datatype json =
    JNull | JBool bool | JNumber string | JString "nat list"
  | JArray "json list" | JObject "(nat list \<times> json) list"

datatype token =
    TLBrace | TRBrace | TLBracket | TRBracket | TColon | TComma
  | TString "nat list" | TWord string

definition backslash :: char where
  "backslash = CHR 0x5C"

definition dquote :: char where
  "dquote = CHR 0x22"

definition is_ws :: "char \<Rightarrow> bool" where
  "is_ws c \<longleftrightarrow> c \<in> set [CHR 0x20, CHR 0x09, CHR 0x0A, CHR 0x0D]"

definition is_digit :: "char \<Rightarrow> bool" where
  "is_digit c \<longleftrightarrow> c \<in> set ''0123456789''"

text \<open>The characters of a bare word: a number or one of the constant names.\<close>

definition is_word_char :: "char \<Rightarrow> bool" where
  "is_word_char c \<longleftrightarrow>
     c \<in> set ''+-.0123456789abcdefghijklmnopqrstuvwxyzABCDEFGHIJKLMNOPQRSTUVWXYZ''"

definition punct :: "char \<Rightarrow> token option" where
  "punct c = map_of [(CHR ''{'', TLBrace), (CHR ''}'', TRBrace), (CHR ''['', TLBracket),
                     (CHR '']'', TRBracket), (CHR '':'', TColon), (CHR '','', TComma)] c"

definition hex_val :: "char \<Rightarrow> nat option" where
  "hex_val c = map_of (zip ''0123456789abcdefABCDEF''
                        [0, 1, 2, 3, 4, 5, 6, 7, 8, 9, 10, 11, 12, 13, 14, 15, 10, 11, 12, 13, 14, 15]) c"

text \<open>The one-character escapes \<open>\" \\ \/ \b \f \n \r \t\<close>.\<close>

definition escape_char :: "char \<Rightarrow> nat option" where
  "escape_char c = map_of [(dquote, 0x22), (backslash, 0x5C), (CHR ''/'', 0x2F), (CHR ''b'', 8),
                           (CHR ''f'', 12), (CHR ''n'', 10), (CHR ''r'', 13), (CHR ''t'', 9)] c"

definition hex4 :: "string \<Rightarrow> (nat \<times> string) option" where
  "hex4 s =
     (case s of
        h1 # h2 # h3 # h4 # rest \<Rightarrow>
          (case (hex_val h1, hex_val h2, hex_val h3, hex_val h4) of
             (Some a, Some b, Some c, Some d) \<Rightarrow> Some (((a * 16 + b) * 16 + c) * 16 + d, rest)
           | _ \<Rightarrow> None)
      | _ \<Rightarrow> None)"

text \<open>The text after \<open>\u\<close>: four hex digits; a high surrogate directly followed by
  an escaped low surrogate is joined with it.\<close>

definition unicode_escape :: "string \<Rightarrow> (nat \<times> string) option" where
  "unicode_escape s =
     (case hex4 s of
        None \<Rightarrow> None
      | Some (u, rest) \<Rightarrow>
          if 0xD800 \<le> u \<and> u \<le> 0xDBFF then
            (case rest of
               b # x # rest' \<Rightarrow>
                 if b = backslash \<and> x = CHR ''u'' then
                   (case hex4 rest' of
                      None \<Rightarrow> None
                    | Some (lo, rest2) \<Rightarrow>
                        if 0xDC00 \<le> lo \<and> lo \<le> 0xDFFF
                        then Some (0x10000 + (u - 0xD800) * 0x400 + (lo - 0xDC00), rest2)
                        else Some (u, rest))
                 else Some (u, rest)
             | _ \<Rightarrow> Some (u, rest))
          else Some (u, rest))"

text \<open>What follows a backslash inside a string: the code point and the rest.\<close>

definition escape_sequence :: "string \<Rightarrow> (nat \<times> string) option" where
  "escape_sequence s =
     (case s of
        [] \<Rightarrow> None
      | e # rest \<Rightarrow>
          if e = CHR ''u'' then unicode_escape rest
          else (case escape_char e of None \<Rightarrow> None | Some x \<Rightarrow> Some (x, rest)))"

lemma hex4_shorter: "hex4 s = Some (u, rest) \<Longrightarrow> length rest < length s"
  by (auto simp: hex4_def split: list.splits option.splits)

lemma unicode_escape_shorter: "unicode_escape s = Some (u, rest) \<Longrightarrow> length rest < length s"
  by (auto simp: unicode_escape_def split: option.splits if_splits list.splits
      dest!: hex4_shorter)

lemma escape_sequence_shorter: "escape_sequence s = Some (u, rest) \<Longrightarrow> length rest < length s"
  by (auto simp: escape_sequence_def split: list.splits if_splits option.splits
      dest!: unicode_escape_shorter)

datatype lex_mode = Outside | InString "nat list" | InWord string

definition add_token :: "token \<Rightarrow> token list option \<Rightarrow> token list option" where
  "add_token t r = map_option ((#) t) r"

text \<open>
  The lexer. With \<open>literal = False\<close> it reads strings as \<open>json.loads\<close> does. With
  \<open>literal = True\<close> a backslash inside a string is an ordinary character: the reading
  under which a text with unescaped backslashes says what its author meant.
\<close>

function lex :: "bool \<Rightarrow> lex_mode \<Rightarrow> string \<Rightarrow> token list option" where
  "lex literal Outside [] = Some []"
| "lex literal (InWord w) [] = Some [TWord (rev w)]"
| "lex literal (InString acc) [] = None"
| "lex literal Outside (c # cs) =
     (if is_ws c then lex literal Outside cs
      else case punct c of
        Some t \<Rightarrow> add_token t (lex literal Outside cs)
      | None \<Rightarrow>
          if c = dquote then lex literal (InString []) cs
          else if is_word_char c then lex literal (InWord [c]) cs
          else None)"
| "lex literal (InWord w) (c # cs) =
     (if is_word_char c then lex literal (InWord (c # w)) cs
      else add_token (TWord (rev w)) (lex literal Outside (c # cs)))"
| "lex literal (InString acc) (c # cs) =
     (if c = dquote then add_token (TString (rev acc)) (lex literal Outside cs)
      else if c = backslash then
        (if literal then lex literal (InString (0x5C # acc)) cs
         else case escape_sequence cs of
           None \<Rightarrow> None
         | Some (x, rest) \<Rightarrow> lex literal (InString (x # acc)) rest)
      else if of_char c < (0x20 :: nat) then None
      else lex literal (InString (of_char c # acc)) cs)"
  by pat_completeness auto
termination
  by (relation "measure (\<lambda>(literal, mode, s).
        2 * length s + (case mode of InWord w \<Rightarrow> 1 | _ \<Rightarrow> 0))")
     (auto dest!: escape_sequence_shorter)

text \<open>The number syntax \<open>-?(0|[1-9]\d*)(\.\d+)?([eE][-+]?\d+)?\<close>.\<close>

definition exponent_ok :: "string \<Rightarrow> bool" where
  "exponent_ok r =
     (case r of
        [] \<Rightarrow> True
      | e # r' \<Rightarrow>
          (e = CHR ''e'' \<or> e = CHR ''E'')
          \<and> (let ds = (case r' of
                          [] \<Rightarrow> []
                        | s # t \<Rightarrow> if s = CHR ''+'' \<or> s = CHR ''-'' then t else r')
             in ds \<noteq> [] \<and> list_all is_digit ds))"

definition valid_number :: "string \<Rightarrow> bool" where
  "valid_number w =
     (let w1 = (case w of [] \<Rightarrow> [] | s # t \<Rightarrow> if s = CHR ''-'' then t else w);
          ip = takeWhile is_digit w1;
          r1 = dropWhile is_digit w1
      in (ip = ''0'' \<or> (ip \<noteq> [] \<and> hd ip \<noteq> CHR ''0''))
         \<and> (case r1 of
               [] \<Rightarrow> True
             | d # r2 \<Rightarrow>
                 if d = CHR ''.''
                 then takeWhile is_digit r2 \<noteq> [] \<and> exponent_ok (dropWhile is_digit r2)
                 else exponent_ok r1))"

definition word_value :: "string \<Rightarrow> json option" where
  "word_value w =
     (if w = ''true'' then Some (JBool True)
      else if w = ''false'' then Some (JBool False)
      else if w = ''null'' then Some JNull
      else if w = ''NaN'' \<or> w = ''Infinity'' \<or> w = ''-Infinity'' then Some (JNumber w)
      else if valid_number w then Some (JNumber w)
      else None)"

text \<open>
  The parser: a stack of the arrays and objects that are open, and what may come next.
  An \<open>ArrayFrame\<close> and an \<open>ObjectFrame\<close> hold what has been read of the container, last
  first; a \<open>MemberFrame\<close> is an object whose next key has been read and whose value is
  awaited.
\<close>

datatype frame =
    ArrayFrame "json list"
  | ObjectFrame "(nat list \<times> json) list"
  | MemberFrame "(nat list \<times> json) list" "nat list"

datatype expect =
    WantValue | WantValueOrClose | WantKeyOrClose | WantKey | WantColon | WantCommaOrClose
  | Finished json

fun finish_value :: "json \<Rightarrow> frame list \<Rightarrow> (expect \<times> frame list) option" where
  "finish_value v [] = Some (Finished v, [])"
| "finish_value v (ArrayFrame xs # st) = Some (WantCommaOrClose, ArrayFrame (v # xs) # st)"
| "finish_value v (MemberFrame kvs k # st) = Some (WantCommaOrClose, ObjectFrame ((k, v) # kvs) # st)"
| "finish_value v (ObjectFrame kvs # st) = None"

fun start_value :: "token \<Rightarrow> frame list \<Rightarrow> (expect \<times> frame list) option" where
  "start_value TLBrace st = Some (WantKeyOrClose, ObjectFrame [] # st)"
| "start_value TLBracket st = Some (WantValueOrClose, ArrayFrame [] # st)"
| "start_value (TString s) st = finish_value (JString s) st"
| "start_value (TWord w) st = (case word_value w of None \<Rightarrow> None | Some v \<Rightarrow> finish_value v st)"
| "start_value t st = None"

fun parse_step :: "expect \<times> frame list \<Rightarrow> token \<Rightarrow> (expect \<times> frame list) option" where
  "parse_step (WantValue, st) t = start_value t st"
| "parse_step (WantValueOrClose, ArrayFrame xs # st) TRBracket = finish_value (JArray (rev xs)) st"
| "parse_step (WantValueOrClose, st) t = start_value t st"
| "parse_step (WantKeyOrClose, ObjectFrame kvs # st) TRBrace = finish_value (JObject (rev kvs)) st"
| "parse_step (WantKeyOrClose, ObjectFrame kvs # st) (TString k) = Some (WantColon, MemberFrame kvs k # st)"
| "parse_step (WantKey, ObjectFrame kvs # st) (TString k) = Some (WantColon, MemberFrame kvs k # st)"
| "parse_step (WantColon, st) TColon = Some (WantValue, st)"
| "parse_step (WantCommaOrClose, ArrayFrame xs # st) TComma = Some (WantValue, ArrayFrame xs # st)"
| "parse_step (WantCommaOrClose, ArrayFrame xs # st) TRBracket = finish_value (JArray (rev xs)) st"
| "parse_step (WantCommaOrClose, ObjectFrame kvs # st) TComma = Some (WantKey, ObjectFrame kvs # st)"
| "parse_step (WantCommaOrClose, ObjectFrame kvs # st) TRBrace = finish_value (JObject (rev kvs)) st"
| "parse_step s t = None"

fun parse_tokens :: "expect \<times> frame list \<Rightarrow> token list \<Rightarrow> json option" where
  "parse_tokens s (t # ts) = (case parse_step s t of None \<Rightarrow> None | Some s' \<Rightarrow> parse_tokens s' ts)"
| "parse_tokens (Finished v, st) [] = Some v"
| "parse_tokens s [] = None"

definition json_decode :: "bool \<Rightarrow> string \<Rightarrow> json option" where
  "json_decode literal s =
     (case lex literal Outside s of None \<Rightarrow> None | Some ts \<Rightarrow> parse_tokens (WantValue, []) ts)"

text \<open>\<open>json.loads\<close>; \<open>None\<close> is \<open>JSONDecodeError\<close>.\<close>

definition json_loads :: "string \<Rightarrow> json option" where
  "json_loads s = json_decode False s"

text \<open>Texts for concrete runs. \<open>reply_newline\<close> wraps \<open>{"a": "x\ny"}\<close> in prose: a
  well-formed object whose string holds the escape \<open>\n\<close>. \<open>reply_quotes\<close> is
  \<open>{"a": "C:\dir \"q\""}\<close>: a backslash that escapes nothing, next to escaped quotes.
  \<open>plain_body\<close> is \<open>"title": "Intro"\<close> and \<open>path_body\<close> is \<open>"path": "C:\dir"\<close>, the
  insides of two objects.\<close>

definition reply_newline_object :: string where
  "reply_newline_object = ''{'' @ [dquote] @ ''a'' @ [dquote] @ '': '' @ [dquote] @ ''x''
     @ [backslash] @ ''ny'' @ [dquote] @ ''}''"

definition reply_newline :: string where
  "reply_newline = ''Here is the outline: '' @ reply_newline_object @ '' Anything else?''"

definition reply_quotes :: string where
  "reply_quotes = ''{'' @ [dquote] @ ''a'' @ [dquote] @ '': '' @ [dquote] @ ''C:'' @ [backslash]
     @ ''dir '' @ [backslash, dquote] @ ''q'' @ [backslash, dquote, dquote] @ ''}''"

definition plain_body :: string where
  "plain_body = [dquote] @ ''title'' @ [dquote] @ '': '' @ [dquote] @ ''Intro'' @ [dquote]"

definition path_body :: string where
  "path_body = [dquote] @ ''path'' @ [dquote] @ '': '' @ [dquote] @ ''C:'' @ [backslash]
     @ ''dir'' @ [dquote]"

section \<open>Decimal keys are injective\<close>

lemma digit_val_digit_char: "d < 10 \<Longrightarrow> digit_val (digit_char d) = d"
proof -
  assume "d < 10"
  then have "d \<in> {0, 1, 2, 3, 4, 5, 6, 7, 8, 9}" by auto
  then show ?thesis by (auto simp add: digit_val_def digit_char_def)
qed

lemma dec_val_snoc: "dec_val (s @ [c]) = 10 * dec_val s + digit_val c"
  by (simp add: dec_val_def)

lemma dec_val_str_nat: "dec_val (str_nat n) = n"
proof (induction n rule: str_nat.induct)
  case (1 n)
  show ?case
  proof (cases "n < 10")
    case True
    then show ?thesis
      by (simp add: str_nat.simps [of n] dec_val_def digit_val_digit_char)
  next
    case False
    with "1.IH" have "dec_val (str_nat (n div 10)) = n div 10" by simp
    with False show ?thesis
      by (simp add: str_nat.simps [of n] dec_val_snoc digit_val_digit_char)
  qed
qed

lemma str_nat_inj: "str_nat a = str_nat b \<Longrightarrow> a = b"
  by (metis dec_val_str_nat)

lemma str_nat_nonempty: "str_nat n \<noteq> []"
  by (subst str_nat.simps) simp

lemma hd_str_nat_not_minus: "hd (str_nat n) \<noteq> CHR ''-''"
proof (induction n rule: str_nat.induct)
  case (1 n)
  show ?case
  proof (cases "n < 10")
    case True
    then have "n \<in> {0, 1, 2, 3, 4, 5, 6, 7, 8, 9}" by auto
    then show ?thesis
      by (auto simp add: str_nat.simps [of n] digit_char_def)
  next
    case False
    with "1.IH" have "hd (str_nat (n div 10)) \<noteq> CHR ''-''" by simp
    with False show ?thesis
      by (simp add: str_nat.simps [of n] str_nat_nonempty)
  qed
qed

lemma str_int_inj: "str_int a = str_int b \<Longrightarrow> a = b"
proof -
  assume eq: "str_int a = str_int b"
  have neg: "hd (str_int i) = CHR ''-'' \<longleftrightarrow> i < 0" for i
    using hd_str_nat_not_minus [of "nat i"] by (simp add: str_int_def)
  show ?thesis
  proof (cases "a < 0")
    case True
    with eq neg [of a] neg [of b] have "b < 0" by simp
    with True eq have "str_nat (nat (- a)) = str_nat (nat (- b))"
      by (simp add: str_int_def)
    then have "nat (- a) = nat (- b)" by (rule str_nat_inj)
    with True \<open>b < 0\<close> show ?thesis by simp
  next
    case False
    with eq neg [of a] neg [of b] have "\<not> b < 0" by simp
    with False eq have "str_nat (nat a) = str_nat (nat b)"
      by (simp add: str_int_def)
    then have "nat a = nat b" by (rule str_nat_inj)
    with False \<open>\<not> b < 0\<close> show ?thesis by simp
  qed
qed

lemma str_int_eq_iff: "str_int a = str_int b \<longleftrightarrow> a = b"
  using str_int_inj by blast

lemma inj_str_pos: "inj (\<lambda>p::nat. str_int (int p))"
  by (rule injI) (simp add: str_int_eq_iff)

section \<open>The text-result loop never fails\<close>

text \<open>
  C10. Whatever positions the index search returns (the padding value \<open>-1\<close> included)
  and whatever the mapping holds, the text-result loop of \<open>_gather_context\<close> ends
  without raising: the guarded subscript never fails. It adds to the context set exactly
  the snippets of the returned positions whose decimal text is a key of the mapping; every
  other position is skipped.
\<close>

theorem text_results_skips_unmapped:
  "text_results tm idxs context_items =
     Inr (context_items \<union>
          set (map (\<lambda>idx. text_snippet (the (tm (str_int idx))))
                   (filter (\<lambda>idx. tm (str_int idx) \<noteq> None) idxs)))"
proof (induction idxs arbitrary: context_items)
  case Nil
  show ?case by simp
next
  case (Cons idx rest)
  show ?case
  proof (cases "tm (str_int idx)")
    case None
    with Cons.IH [of context_items] show ?thesis by simp
  next
    case (Some item)
    with Cons.IH [of "insert (text_snippet item) context_items"] show ?thesis
      by (simp add: dict_get_def)
  qed
qed

text \<open>The same set, described by membership; used for the search below.\<close>

lemma text_results_items:
  "text_results tm idxs context_items =
     Inr (context_items \<union> {text_snippet e | e idx. idx \<in> set idxs \<and> tm (str_int idx) = Some e})"
proof (induction idxs arbitrary: context_items)
  case Nil
  show ?case by simp
next
  case (Cons idx rest)
  show ?case
  proof (cases "tm (str_int idx)")
    case None
    then have "{text_snippet e | e i. i \<in> set (idx # rest) \<and> tm (str_int i) = Some e}
             = {text_snippet e | e i. i \<in> set rest \<and> tm (str_int i) = Some e}"
      by auto
    with None Cons.IH [of context_items] show ?thesis by simp
  next
    case (Some item)
    then have "insert (text_snippet item) context_items \<union> {text_snippet e | e i. i \<in> set rest \<and> tm (str_int i) = Some e}
             = context_items \<union> {text_snippet e | e i. i \<in> set (idx # rest) \<and> tm (str_int i) = Some e}"
      by auto
    with Some Cons.IH [of "insert (text_snippet item) context_items"] show ?thesis
      by (simp add: dict_get_def)
  qed
qed

section \<open>Adding to the index\<close>

lemma add_mapping_old:
  "(\<forall>i < length cs. key \<noteq> str_int (int (k + i))) \<Longrightarrow> add_mapping m doc k cs key = m key"
proof (induction cs arbitrary: m k)
  case Nil
  show ?case by simp
next
  case (Cons c cs)
  from Cons.prems have k: "key \<noteq> str_int (int k)" by force
  have "\<forall>i < length cs. key \<noteq> str_int (int (Suc k + i))"
  proof (intro allI impI)
    fix i assume "i < length cs"
    then have "Suc i < length (c # cs)" by simp
    with Cons.prems have "key \<noteq> str_int (int (k + Suc i))" by blast
    then show "key \<noteq> str_int (int (Suc k + i))" by simp
  qed
  then have "add_mapping (m(str_int (int k) \<mapsto> \<lparr>doc_id = doc, chunk_text = c\<rparr>)) doc (Suc k) cs key
           = (m(str_int (int k) \<mapsto> \<lparr>doc_id = doc, chunk_text = c\<rparr>)) key"
    by (rule Cons.IH)
  with k show ?case by simp
qed

lemma add_mapping_new:
  "i < length cs \<Longrightarrow>
   add_mapping m doc k cs (str_int (int (k + i))) = Some \<lparr>doc_id = doc, chunk_text = cs ! i\<rparr>"
proof (induction cs arbitrary: m k i)
  case Nil
  then show ?case by simp
next
  case (Cons c cs)
  show ?case
  proof (cases i)
    case 0
    have "\<forall>j < length cs. str_int (int k) \<noteq> str_int (int (Suc k + j))"
      by (simp add: str_int_eq_iff)
    then have "add_mapping (m(str_int (int k) \<mapsto> \<lparr>doc_id = doc, chunk_text = c\<rparr>)) doc (Suc k) cs (str_int (int k))
             = (m(str_int (int k) \<mapsto> \<lparr>doc_id = doc, chunk_text = c\<rparr>)) (str_int (int k))"
      by (rule add_mapping_old)
    with 0 show ?thesis by simp
  next
    case (Suc j)
    with Cons.prems have "j < length cs" by simp
    then have "add_mapping (m(str_int (int k) \<mapsto> \<lparr>doc_id = doc, chunk_text = c\<rparr>)) doc (Suc k) cs
                 (str_int (int (Suc k + j))) = Some \<lparr>doc_id = doc, chunk_text = cs ! j\<rparr>"
      by (rule Cons.IH)
    with Suc show ?thesis by simp
  qed
qed

lemma dom_add_mapping:
  "dom (add_mapping m doc k cs) = dom m \<union> (\<lambda>p. str_int (int p)) ` {k ..< k + length cs}"
proof (induction cs arbitrary: m k)
  case Nil
  show ?case by simp
next
  case (Cons c cs)
  have "{k ..< k + length (c # cs)} = insert k {Suc k ..< Suc k + length cs}" by auto
  then have "(\<lambda>p. str_int (int p)) ` {k ..< k + length (c # cs)}
           = insert (str_int (int k)) ((\<lambda>p. str_int (int p)) ` {Suc k ..< Suc k + length cs})"
    by (simp only: image_insert)
  moreover have "dom (add_mapping m doc k (c # cs))
           = insert (str_int (int k)) (dom m) \<union> (\<lambda>p. str_int (int p)) ` {Suc k ..< Suc k + length cs}"
    by (simp only: add_mapping.simps Cons.IH dom_fun_upd option.simps if_False)
  ultimately show ?case by (simp only: Un_insert_left Un_insert_right)
qed

lemma index_inv_dom:
  assumes "index_inv ix m"
  shows "dom m = (\<lambda>p. str_int (int p)) ` {0 ..< ntotal ix}"
proof (rule card_subset_eq)
  show "finite ((\<lambda>p. str_int (int p)) ` {0 ..< ntotal ix})" by simp
  show "dom m \<subseteq> (\<lambda>p. str_int (int p)) ` {0 ..< ntotal ix}"
    using assms by (fastforce simp: index_inv_def)
  have "card ((\<lambda>p. str_int (int p)) ` {0 ..< ntotal ix}) = ntotal ix"
    using inj_str_pos by (simp add: card_image inj_on_def str_int_eq_iff)
  with assms show "card (dom m) = card ((\<lambda>p. str_int (int p)) ` {0 ..< ntotal ix})"
    by (simp add: index_inv_def)
qed

lemma index_inv_from_dom:
  assumes "dom m = (\<lambda>p. str_int (int p)) ` {0 ..< ntotal ix}"
  shows "index_inv ix m"
proof -
  have "card ((\<lambda>p. str_int (int p)) ` {0 ..< ntotal ix}) = ntotal ix"
    by (simp add: card_image inj_on_def str_int_eq_iff)
  with assms show ?thesis by (auto simp: index_inv_def)
qed

text \<open>
  C1. For a stored index of \<open>n\<close> vectors whose mapping satisfies the invariant, adding
  \<open>m \<ge> 1\<close> vectors of the index's dimension with their \<open>m\<close> chunks succeeds;
  the \<open>i\<close>-th new vector is at position \<open>n + i\<close>, the mapping has the entry of the
  \<open>i\<close>-th chunk under the key \<open>str(n + i)\<close>, the old positions and entries are
  unchanged, the index size grows by exactly \<open>m\<close>, and the invariant holds again.
\<close>

theorem update_faiss_index_appends:
  assumes files: "index_file fs = Some ix" "mapping_file fs = Some m"
    and inv: "index_inv ix m"
    and len: "length chunks = length embeddings"
    and ne: "embeddings \<noteq> []"
    and dims: "\<forall>e \<in> set embeddings. length e = dim ix"
  shows "\<exists>ix' m'. update_faiss_index f32 fs doc chunks embeddings
             = Inr \<lparr>index_file = Some ix', mapping_file = Some m'\<rparr>
         \<and> ntotal ix' = ntotal ix + length embeddings
         \<and> (\<forall>i < length embeddings.
               xb ix' ! (ntotal ix + i) = map f32 (embeddings ! i)
             \<and> m' (str_int (int (ntotal ix + i))) = Some \<lparr>doc_id = doc, chunk_text = chunks ! i\<rparr>)
         \<and> (\<forall>p < ntotal ix. xb ix' ! p = xb ix ! p \<and> m' (str_int (int p)) = m (str_int (int p)))
         \<and> index_inv ix' m'"
proof -
  define ix' where "ix' = ix\<lparr>xb := xb ix @ map (map f32) embeddings\<rparr>"
  define m' where "m' = add_mapping m doc (ntotal ix) chunks"
  from ne obtain e es where ees: "embeddings = e # es" by (cases embeddings) auto
  with dims have "list_all (\<lambda>v. length v = length e) es" "length e = dim ix"
    by (auto simp: list_all_iff)
  with ees have add: "index_add f32 ix embeddings = Inr ix'"
    by (simp add: index_add_def ix'_def)
  have run: "update_faiss_index f32 fs doc chunks embeddings
           = Inr \<lparr>index_file = Some ix', mapping_file = Some m'\<rparr>"
    using files add by (simp add: update_faiss_index_def m'_def)
  have size: "ntotal ix' = ntotal ix + length embeddings"
    by (simp add: ix'_def ntotal_def)
  have new: "xb ix' ! (ntotal ix + i) = map f32 (embeddings ! i)
           \<and> m' (str_int (int (ntotal ix + i))) = Some \<lparr>doc_id = doc, chunk_text = chunks ! i\<rparr>"
    if "i < length embeddings" for i
  proof -
    from that len have "i < length chunks" by simp
    then have "m' (str_int (int (ntotal ix + i))) = Some \<lparr>doc_id = doc, chunk_text = chunks ! i\<rparr>"
      unfolding m'_def by (rule add_mapping_new)
    moreover have "xb ix' ! (ntotal ix + i) = map f32 (embeddings ! i)"
      using that by (simp add: ix'_def ntotal_def)
    ultimately show ?thesis by simp
  qed
  have old: "xb ix' ! p = xb ix ! p \<and> m' (str_int (int p)) = m (str_int (int p))"
    if "p < ntotal ix" for p
  proof -
    have "\<forall>i < length chunks. str_int (int p) \<noteq> str_int (int (ntotal ix + i))"
      using that by (simp add: str_int_eq_iff)
    then have "m' (str_int (int p)) = m (str_int (int p))"
      unfolding m'_def by (rule add_mapping_old)
    with that show ?thesis by (simp add: ix'_def ntotal_def nth_append)
  qed
  have "dom m' = (\<lambda>p. str_int (int p)) ` {0 ..< ntotal ix} \<union>
                 (\<lambda>p. str_int (int p)) ` {ntotal ix ..< ntotal ix + length chunks}"
    unfolding m'_def by (simp add: dom_add_mapping index_inv_dom [OF inv])
  also have "\<dots> = (\<lambda>p. str_int (int p)) ` ({0 ..< ntotal ix} \<union> {ntotal ix ..< ntotal ix + length chunks})"
    by (simp add: image_Un)
  also have "{0 ..< ntotal ix} \<union> {ntotal ix ..< ntotal ix + length chunks} = {0 ..< ntotal ix'}"
    using size len by auto
  finally have "index_inv ix' m'" by (rule index_inv_from_dom)
  with run size new old show ?thesis by blast
qed


theorem update_faiss_index_appends_witness:
  "index_inv \<lparr>dim = 2, xb = [[1, 2]]\<rparr> [''0'' \<mapsto> \<lparr>doc_id = 1, chunk_text = ''a''\<rparr>]
   \<and> (\<exists>ix' m'.
         update_faiss_index (\<lambda>x. x)
           \<lparr>index_file = Some \<lparr>dim = 2, xb = [[1, 2]]\<rparr>,
            mapping_file = Some [''0'' \<mapsto> \<lparr>doc_id = 1, chunk_text = ''a''\<rparr>]\<rparr>
           7 [''b''] [[3, 4]]
           = Inr \<lparr>index_file = Some ix', mapping_file = Some m'\<rparr>
       \<and> ntotal ix' = 2
       \<and> xb ix' ! 1 = [3, 4]
       \<and> m' ''1'' = Some \<lparr>doc_id = 7, chunk_text = ''b''\<rparr>
       \<and> index_inv ix' m')"
proof -
  let ?ix = "\<lparr>dim = 2, xb = [[1, 2 :: real]]\<rparr>"
  let ?m = "[''0'' \<mapsto> \<lparr>doc_id = 1, chunk_text = ''a''\<rparr>]"
  let ?fs = "\<lparr>index_file = Some ?ix, mapping_file = Some ?m\<rparr>"
  have s0: "str_int 0 = ''0''" and s1: "str_int 1 = ''1''"
    by (simp_all add: str_int_def str_nat.simps digit_char_def)
  have inv: "index_inv ?ix ?m"
    by (simp add: index_inv_def ntotal_def s0)
  have "\<exists>ix' m'. update_faiss_index (\<lambda>x. x) ?fs 7 [''b''] [[3, 4]]
             = Inr \<lparr>index_file = Some ix', mapping_file = Some m'\<rparr>
         \<and> ntotal ix' = ntotal ?ix + length [[3, 4 :: real]]
         \<and> (\<forall>i < length [[3, 4 :: real]].
               xb ix' ! (ntotal ?ix + i) = map (\<lambda>x. x) ([[3, 4]] ! i)
             \<and> m' (str_int (int (ntotal ?ix + i))) = Some \<lparr>doc_id = 7, chunk_text = [''b''] ! i\<rparr>)
         \<and> (\<forall>p < ntotal ?ix. xb ix' ! p = xb ?ix ! p \<and> m' (str_int (int p)) = ?m (str_int (int p)))
         \<and> index_inv ix' m'"
  proof (rule update_faiss_index_appends [where fs = ?fs and ix = ?ix and m = ?m])
    show "index_inv ?ix ?m" by (rule inv)
  qed simp_all
  then obtain ix' m' where
    run: "update_faiss_index (\<lambda>x. x) ?fs 7 [''b''] [[3, 4]]
             = Inr \<lparr>index_file = Some ix', mapping_file = Some m'\<rparr>"
    and size: "ntotal ix' = ntotal ?ix + length [[3, 4 :: real]]"
    and new: "\<forall>i < length [[3, 4 :: real]].
               xb ix' ! (ntotal ?ix + i) = map (\<lambda>x. x) ([[3, 4]] ! i)
             \<and> m' (str_int (int (ntotal ?ix + i))) = Some \<lparr>doc_id = 7, chunk_text = [''b''] ! i\<rparr>"
    and inv': "index_inv ix' m'"
    by blast
  from new have "xb ix' ! (ntotal ?ix + 0) = map (\<lambda>x. x) ([[3, 4]] ! 0)
             \<and> m' (str_int (int (ntotal ?ix + 0))) = Some \<lparr>doc_id = 7, chunk_text = [''b''] ! 0\<rparr>"
    by simp
  then have "xb ix' ! 1 = [3, 4]" "m' ''1'' = Some \<lparr>doc_id = 7, chunk_text = ''b''\<rparr>"
    by (simp_all add: ntotal_def s1)
  moreover from size have "ntotal ix' = 2" by (simp add: ntotal_def)
  ultimately show ?thesis using inv run inv' by blast
qed

section \<open>The fixed-point merge terminates\<close>

lemma find_j_Some: "find_j t rects i k = Some j \<Longrightarrow> j < k \<and> near t (rects ! i) (rects ! j)"
  by (induction k) (auto split: if_splits)

lemma find_j_None: "find_j t rects i k = None \<Longrightarrow> j < k \<Longrightarrow> \<not> near t (rects ! i) (rects ! j)"
  by (induction k) (auto split: if_splits simp: less_Suc_eq)

lemma find_pair_Some:
  "find_pair t rects k = Some (i, j) \<Longrightarrow> j < i \<and> i < k \<and> near t (rects ! i) (rects ! j)"
  by (induction k) (auto split: option.splits dest: find_j_Some)

lemma find_pair_None:
  "find_pair t rects k = None \<Longrightarrow> i < k \<Longrightarrow> j < i \<Longrightarrow> \<not> near t (rects ! i) (rects ! j)"
  by (induction k) (auto split: option.splits simp: less_Suc_eq dest: find_j_None)

lemma length_pop: "i < length xs \<Longrightarrow> length (pop i xs) = length xs - 1"
  by (simp add: pop_def)

lemma merge_pass_True_length:
  "merge_pass t rects = (True, rects') \<Longrightarrow> length rects' < length rects"
  by (auto simp: merge_pass_def length_pop split: option.splits dest!: find_pair_Some)

lemma merge_pass_False: "merge_pass t rects = (False, rects') \<Longrightarrow> rects' = rects"
  by (auto simp: merge_pass_def split: option.splits)

lemma merge_pass_length_le: "length (snd (merge_pass t rects)) \<le> length rects"
  by (auto simp: merge_pass_def length_pop split: option.splits dest!: find_pair_Some)

lemma merge_loop_returns:
  "\<exists>s. while_option (\<lambda>(merged, rects). merged)
          (\<lambda>(merged, rects). merge_pass t rects) (True, bboxes) = Some s"
proof -
  let ?b = "\<lambda>(merged :: bool, rects :: rect list). merged"
  let ?c = "\<lambda>(merged :: bool, rects :: rect list). merge_pass t rects"
  let ?f = "\<lambda>(merged :: bool, rects :: rect list). 2 * length rects + (if merged then 1 else 0)"
  show "\<exists>s. while_option ?b ?c (True, bboxes) = Some s"
  proof (rule measure_while_option_Some [where P = "\<lambda>s. True" and f = ?f])
    fix s :: "bool \<times> rect list"
    assume "?b s"
    then obtain rects where s: "s = (True, rects)" by (cases s) auto
    obtain m' rects' where mp: "merge_pass t rects = (m', rects')" by (cases "merge_pass t rects")
    have "?f (m', rects') < ?f (True, rects)"
    proof (cases m')
      case True
      with mp have "length rects' < length rects" by (simp add: merge_pass_True_length)
      with True show ?thesis by simp
    next
      case False
      with mp have "rects' = rects" by (simp add: merge_pass_False)
      with False show ?thesis by simp
    qed
    with s mp show "True \<and> ?f (?c s) < ?f s" by simp
  qed simp
qed

lemma merge_nearby_bboxes_Some: "\<exists>res. merge_nearby_bboxes t bboxes = Some res"
proof (cases "bboxes = []")
  case True
  then show ?thesis by (simp add: merge_nearby_bboxes_def)
next
  case False
  from merge_loop_returns [of t bboxes] obtain s where
    "while_option (\<lambda>(merged, rects). merged)
          (\<lambda>(merged, rects). merge_pass t rects) (True, bboxes) = Some s" by blast
  with False show ?thesis by (simp add: merge_nearby_bboxes_def)
qed

text \<open>
  C7. On every list of boxes and for every threshold the merge procedure returns: each
  pass of the loop either finds no pair and stops, or merges a pair and makes the list
  one box shorter. The result never has more boxes than the input.
\<close>

theorem merge_nearby_bboxes_terminates:
  "\<exists>res. merge_nearby_bboxes t bboxes = Some res \<and> length res \<le> length bboxes"
proof (cases "bboxes = []")
  case True
  then show ?thesis by (simp add: merge_nearby_bboxes_def)
next
  case False
  let ?b = "\<lambda>(merged :: bool, rects :: rect list). merged"
  let ?c = "\<lambda>(merged :: bool, rects :: rect list). merge_pass t rects"
  from merge_loop_returns [of t bboxes]
  obtain s where s: "while_option ?b ?c (True, bboxes) = Some s" by blast
  have "length (snd s) \<le> length bboxes"
  proof (rule while_option_rule [where P = "\<lambda>s. length (snd s) \<le> length bboxes", OF _ s])
    fix s :: "bool \<times> rect list"
    assume "length (snd s) \<le> length bboxes"
    moreover have "length (snd (?c s)) \<le> length (snd s)"
      by (cases s) (simp add: merge_pass_length_le)
    ultimately show "length (snd (?c s)) \<le> length bboxes" by simp
  qed simp
  with s False show ?thesis by (simp add: merge_nearby_bboxes_def)
qed

section \<open>Order of the input boxes\<close>

lemma near_valid:
  assumes "0 \<le> t" "valid_box t a" "valid_box t b"
  shows "near t a b \<longleftrightarrow>
           x0 a - t < x1 b \<and> x0 b < x1 a + t \<and> y0 a - t < y1 b \<and> y0 b < y1 a + t"
  using assms
  by (auto simp: near_def intersects_def intersect_def is_empty_def is_infinite_def
      rect_add_def valid_box_def)

lemma include_rect_valid:
  assumes "0 \<le> t" "valid_box t a" "valid_box t b"
  shows "include_rect a b = \<lparr>x0 = min (x0 a) (x0 b), y0 = min (y0 a) (y0 b),
                             x1 = max (x1 a) (x1 b), y1 = max (y1 a) (y1 b)\<rparr>"
  using assms
  by (auto simp: include_rect_def is_empty_def is_infinite_def valid_box_def)

lemma include_rect_valid_box:
  assumes "0 \<le> t" "valid_box t a" "valid_box t b"
  shows "valid_box t (include_rect a b)"
  using assms by (auto simp: include_rect_valid [OF assms] valid_box_def)

lemma inside_include_rect:
  assumes "0 \<le> t" "valid_box t a" "valid_box t b"
  shows "inside a (include_rect a b)" "inside b (include_rect a b)"
  by (auto simp: include_rect_valid [OF assms] inside_def)

lemma include_rect_inside:
  assumes "0 \<le> t" "valid_box t a" "valid_box t b" "inside a f" "inside b f"
  shows "inside (include_rect a b) f"
  using assms(4,5) by (auto simp: include_rect_valid [OF assms(1-3)] inside_def)

lemma inside_trans: "inside a b \<Longrightarrow> inside b c \<Longrightarrow> inside a c"
  by (auto simp: inside_def)

lemma inside_antisym: "inside a b \<Longrightarrow> inside b a \<Longrightarrow> a = b"
  by (cases a, cases b) (auto simp: inside_def)

lemma near_sym:
  assumes "0 \<le> t" "valid_box t a" "valid_box t b" "near t a b"
  shows "near t b a"
  using assms(4) by (auto simp: near_valid [OF assms(1-3)] near_valid [OF assms(1,3,2)])

lemma near_mono:
  assumes "0 \<le> t" "valid_box t a" "valid_box t b" "valid_box t f" "valid_box t g"
    and "inside a f" "inside b g" "near t a b"
  shows "near t f g"
  using assms(6-8)
  by (auto simp: near_valid [OF assms(1-3)] near_valid [OF assms(1,4,5)] inside_def)

lemma inside_near:
  assumes "0 \<le> t" "valid_box t a" "valid_box t b" "inside a b"
  shows "near t a b"
  using assms by (auto simp: near_valid [OF assms(1-3)] inside_def valid_box_def)

lemma inside_refl: "inside a a"
  by (simp add: inside_def)

lemma covered_refl: "covered X X"
  unfolding covered_def using inside_refl by blast

lemma covered_trans: "covered X Y \<Longrightarrow> covered Y Z \<Longrightarrow> covered X Z"
  unfolding covered_def by (meson inside_trans)

lemma nth_pop_mem:
  assumes "k < length ys" "k \<noteq> i"
  shows "ys ! k \<in> set (pop i ys)"
proof (cases "k < i")
  case True
  with assms have "take i ys ! k = ys ! k" "k < length (take i ys)" by simp_all
  then have "ys ! k \<in> set (take i ys)" by (metis nth_mem)
  then show ?thesis by (simp add: pop_def)
next
  case False
  with assms have ki: "Suc i \<le> k" by simp
  with assms have "drop (Suc i) ys ! (k - Suc i) = ys ! k" "k - Suc i < length (drop (Suc i) ys)"
    by simp_all
  then have "ys ! k \<in> set (drop (Suc i) ys)" by (metis nth_mem)
  then show ?thesis by (simp add: pop_def)
qed

lemma set_pop_subset: "set (pop i ys) \<subseteq> set ys"
  using set_take_subset [of i ys] set_drop_subset [of "Suc i" ys] by (auto simp: pop_def)

lemma merge_pass_True_cases:
  assumes "merge_pass t rects = (True, rects')"
  obtains i j where "j < i" "i < length rects" "near t (rects ! i) (rects ! j)"
    "rects' = pop i (rects[j := include_rect (rects ! i) (rects ! j)])"
proof -
  from assms obtain i j where fp: "find_pair t rects (length rects) = Some (i, j)"
    and r': "rects' = pop i (rects[j := include_rect (rects ! i) (rects ! j)])"
    by (auto simp: merge_pass_def split: option.splits)
  from find_pair_Some [OF fp] r' show ?thesis by (auto intro: that)
qed

lemma merged_in_result:
  assumes "j < i" "i < length rects"
  shows "u \<in> set (pop i (rects[j := u]))"
proof -
  from assms have "j < length (rects[j := u])" "j \<noteq> i" by simp_all
  then have "(rects[j := u]) ! j \<in> set (pop i (rects[j := u]))" by (rule nth_pop_mem)
  with assms show ?thesis by simp
qed

lemma result_from_old:
  "set (pop i (rects[j := u])) \<subseteq> insert u (set rects)"
  using set_pop_subset [of i "rects[j := u]"] set_update_subset_insert [of rects j u] by blast

lemma old_in_result:
  assumes "x \<in> set rects"
  shows "x \<in> set (pop i (rects[j := u])) \<or> x = rects ! i \<or> x = rects ! j"
proof -
  from assms obtain k where k: "k < length rects" "x = rects ! k" by (auto simp: in_set_conv_nth)
  show ?thesis
  proof (cases "k = i \<or> k = j")
    case True
    with k show ?thesis by auto
  next
    case False
    with k have "k < length (rects[j := u])" "k \<noteq> i" by simp_all
    then have "(rects[j := u]) ! k \<in> set (pop i (rects[j := u]))" by (rule nth_pop_mem)
    with False k show ?thesis by simp
  qed
qed

lemma merge_pass_step:
  assumes t: "0 \<le> t" and valid: "\<forall>r \<in> set rects. valid_box t r"
    and mp: "merge_pass t rects = (True, rects')"
  shows "\<forall>r \<in> set rects'. valid_box t r"
    and "covered (set rects) (set rects')"
    and "stable t F \<Longrightarrow> \<forall>f \<in> F. valid_box t f \<Longrightarrow> covered (set rects) F \<Longrightarrow> covered (set rects') F"
proof -
  from mp obtain i j where ij: "j < i" "i < length rects" and nr: "near t (rects ! i) (rects ! j)"
    and r': "rects' = pop i (rects[j := include_rect (rects ! i) (rects ! j)])"
    by (rule merge_pass_True_cases)
  let ?a = "rects ! i" and ?b = "rects ! j"
  let ?u = "include_rect ?a ?b"
  from ij have mem: "?a \<in> set rects" "?b \<in> set rects" by simp_all
  with valid have va: "valid_box t ?a" and vb: "valid_box t ?b" by blast+
  have vu: "valid_box t ?u" using t va vb by (rule include_rect_valid_box)
  have sub: "set rects' \<subseteq> insert ?u (set rects)" unfolding r' by (rule result_from_old)
  show "\<forall>r \<in> set rects'. valid_box t r" using sub vu valid by blast
  have uin: "?u \<in> set rects'" unfolding r' using ij by (rule merged_in_result)
  show "covered (set rects) (set rects')"
    unfolding covered_def
  proof
    fix x assume "x \<in> set rects"
    then have "x \<in> set rects' \<or> x = ?a \<or> x = ?b" unfolding r' by (rule old_in_result)
    then show "\<exists>f \<in> set rects'. inside x f"
      using uin inside_include_rect [OF t va vb] inside_refl by blast
  qed
  show "covered (set rects') F"
    if st: "stable t F" and vF: "\<forall>f \<in> F. valid_box t f" and cov: "covered (set rects) F"
    unfolding covered_def
  proof
    fix x assume x: "x \<in> set rects'"
    show "\<exists>f \<in> F. inside x f"
    proof (cases "x = ?u")
      case False
      with x sub have "x \<in> set rects" by blast
      with cov show ?thesis by (simp add: covered_def)
    next
      case True
      from cov mem obtain f g where f: "f \<in> F" "inside ?a f" and g: "g \<in> F" "inside ?b g"
        unfolding covered_def by blast
      from vF f g have vf: "valid_box t f" and vg: "valid_box t g" by blast+
      have "near t f g" using t va vb vf vg f(2) g(2) nr by (rule near_mono)
      with st f g have "f = g" by (simp add: stable_def)
      with g have "inside ?b f" by simp
      with f have "inside ?u f" using t va vb by (simp add: include_rect_inside)
      with True f show ?thesis by blast
    qed
  qed
qed

lemma merge_pass_False_stable:
  "merge_pass t rects = (False, rects') \<Longrightarrow> rects' = rects \<and> no_near_pair t rects"
  by (auto simp: merge_pass_def no_near_pair_def split: option.splits dest: find_pair_None)

lemma no_near_pair_stable:
  assumes t: "0 \<le> t" and valid: "\<forall>r \<in> set rects. valid_box t r" and nn: "no_near_pair t rects"
  shows "stable t (set rects)"
  unfolding stable_def
proof (intro ballI impI)
  fix f g assume f: "f \<in> set rects" and g: "g \<in> set rects" and nr: "near t f g"
  from f obtain a where a: "a < length rects" "f = rects ! a" by (auto simp: in_set_conv_nth)
  from g obtain b where b: "b < length rects" "g = rects ! b" by (auto simp: in_set_conv_nth)
  from valid f g have vf: "valid_box t f" and vg: "valid_box t g" by blast+
  have "near t g f" using t vf vg nr by (rule near_sym)
  with nr nn a b have "\<not> b < a" "\<not> a < b" by (auto simp: no_near_pair_def)
  then have "a = b" by simp
  with a b show "f = g" by simp
qed

lemma merge_loop_invariants:
  assumes t: "0 \<le> t" and valid: "\<forall>b \<in> set bboxes. valid_box t b"
    and res: "while_option (\<lambda>(merged, rects). merged)
                (\<lambda>(merged, rects). merge_pass t rects) (True, bboxes) = Some (m, res)"
  shows "(\<forall>r \<in> set res. valid_box t r) \<and> covered (set bboxes) (set res) \<and> no_near_pair t res
       \<and> (stable t F \<and> (\<forall>f \<in> F. valid_box t f) \<and> covered (set bboxes) F \<longrightarrow> covered (set res) F)"
proof -
  let ?P = "\<lambda>(merged, rects).
      (\<forall>r \<in> set rects. valid_box t r) \<and> covered (set bboxes) (set rects)
    \<and> (\<not> merged \<longrightarrow> no_near_pair t rects)
    \<and> (stable t F \<and> (\<forall>f \<in> F. valid_box t f) \<and> covered (set bboxes) F \<longrightarrow> covered (set rects) F)"
  have "?P (m, res)"
  proof (rule while_option_rule [where P = ?P, OF _ res])
    show "?P (True, bboxes)" using valid by (simp add: covered_refl)
  next
    fix s :: "bool \<times> rect list"
    assume P: "?P s" and b: "(\<lambda>(merged, rects). merged) s"
    from b obtain rects where s: "s = (True, rects)" by (cases s) auto
    obtain m' rects' where mp: "merge_pass t rects = (m', rects')" by (cases "merge_pass t rects")
    from P s have v: "\<forall>r \<in> set rects. valid_box t r" and c: "covered (set bboxes) (set rects)"
      and cF: "stable t F \<and> (\<forall>f \<in> F. valid_box t f) \<and> covered (set bboxes) F \<longrightarrow> covered (set rects) F"
      by simp_all
    have "?P (m', rects')"
    proof (cases m')
      case False
      with mp have "rects' = rects \<and> no_near_pair t rects" by (simp add: merge_pass_False_stable)
      with False v c cF show ?thesis by simp
    next
      case True
      with mp have mp': "merge_pass t rects = (True, rects')" by simp
      from merge_pass_step [OF t v mp'] c cF True show ?thesis
        by (auto intro: covered_trans)
    qed
    with s mp show "?P ((\<lambda>(merged, rects). merge_pass t rects) s)" by simp
  qed
  moreover from while_option_stop [OF res] have "\<not> m" by simp
  ultimately show ?thesis by simp
qed

lemma merge_nearby_bboxes_facts:
  assumes t: "0 \<le> t" and valid: "\<forall>b \<in> set bboxes. valid_box t b"
    and res: "merge_nearby_bboxes t bboxes = Some res"
  shows "\<forall>r \<in> set res. valid_box t r" and "covered (set bboxes) (set res)"
    and "stable t (set res)"
    and "stable t F \<Longrightarrow> \<forall>f \<in> F. valid_box t f \<Longrightarrow> covered (set bboxes) F \<Longrightarrow> covered (set res) F"
proof -
  have all: "(\<forall>r \<in> set res. valid_box t r) \<and> covered (set bboxes) (set res) \<and> no_near_pair t res
       \<and> (stable t F \<and> (\<forall>f \<in> F. valid_box t f) \<and> covered (set bboxes) F \<longrightarrow> covered (set res) F)"
  proof (cases "bboxes = []")
    case True
    with res have "res = []" by (simp add: merge_nearby_bboxes_def)
    with True show ?thesis by (simp add: covered_def no_near_pair_def)
  next
    case False
    with res obtain m where "while_option (\<lambda>(merged, rects). merged)
                (\<lambda>(merged, rects). merge_pass t rects) (True, bboxes) = Some (m, res)"
      by (auto simp: merge_nearby_bboxes_def)
    with t valid show ?thesis by (rule merge_loop_invariants)
  qed
  then show "\<forall>r \<in> set res. valid_box t r" and "covered (set bboxes) (set res)" by simp_all
  from all show "stable t (set res)" using t by (simp add: no_near_pair_stable)
  from all show "covered (set res) F"
    if "stable t F" "\<forall>f \<in> F. valid_box t f" "covered (set bboxes) F"
    using that by simp
qed

lemma stable_covered_subset:
  assumes t: "0 \<le> t" and vF: "\<forall>f \<in> F. valid_box t f" and vG: "\<forall>g \<in> G. valid_box t g"
    and sF: "stable t F" and FG: "covered F G" and GF: "covered G F"
  shows "F \<subseteq> G"
proof
  fix f assume f: "f \<in> F"
  with FG obtain g where g: "g \<in> G" "inside f g" unfolding covered_def by blast
  with GF obtain f' where f': "f' \<in> F" "inside g f'" unfolding covered_def by blast
  from g f' have ff': "inside f f'" by (blast intro: inside_trans)
  from vF f f' have "valid_box t f" "valid_box t f'" by blast+
  with t ff' have "near t f f'" by (simp add: inside_near)
  with sF f f' have "f = f'" by (simp add: stable_def)
  with g f' have "f = g" by (simp add: inside_antisym)
  with g show "f \<in> G" by simp
qed

text \<open>
  C8, as the code has it. A degenerate box (a vertical line, empty for PyMuPDF) is
  absorbed when it comes after a near box in the list and is left alone when it comes
  before it, because only the later box of a pair is inflated and an empty box
  intersects nothing. The two orders of the same two boxes give different region sets.
\<close>

theorem merge_nearby_bboxes_order_counterexample:
  "mset [\<lparr>x0 = 20, y0 = 0, x1 = 20, y1 = 10\<rparr>, \<lparr>x0 = 0, y0 = 0, x1 = 10, y1 = 10\<rparr>]
     = mset [\<lparr>x0 = 0, y0 = 0, x1 = 10, y1 = 10\<rparr>, \<lparr>x0 = 20, y0 = 0, x1 = 20, y1 = 10\<rparr>]
   \<and> map_option set (merge_nearby_bboxes 15
         [\<lparr>x0 = 0, y0 = 0, x1 = 10, y1 = 10\<rparr>, \<lparr>x0 = 20, y0 = 0, x1 = 20, y1 = 10\<rparr>])
     = Some {\<lparr>x0 = 0, y0 = 0, x1 = 10, y1 = 10\<rparr>}
   \<and> map_option set (merge_nearby_bboxes 15
         [\<lparr>x0 = 20, y0 = 0, x1 = 20, y1 = 10\<rparr>, \<lparr>x0 = 0, y0 = 0, x1 = 10, y1 = 10\<rparr>])
     = Some {\<lparr>x0 = 20, y0 = 0, x1 = 20, y1 = 10\<rparr>, \<lparr>x0 = 0, y0 = 0, x1 = 10, y1 = 10\<rparr>}
   \<and> {\<lparr>x0 = 20, y0 = 0, x1 = 20, y1 = 10\<rparr>, \<lparr>x0 = 0, y0 = 0, x1 = 10, y1 = 10\<rparr>}
     \<noteq> {\<lparr>x0 = 0 :: real, y0 = 0 :: real, x1 = 10 :: real, y1 = 10 :: real\<rparr>}"
  by (simp add: merge_nearby_bboxes_def while_option_unfold merge_pass_def near_def intersects_def
      intersect_def is_empty_def is_infinite_def rect_add_def include_rect_def pop_def
      FZ_MIN_INF_RECT_def FZ_MAX_INF_RECT_def)

text \<open>
  C8, amended. For a threshold \<open>t \<ge> 0\<close> and boxes of positive width and height
  (with \<open>x0\<close> above the infinite-rectangle sentinel plus \<open>t\<close>), the merge of any
  permutation of the list returns, and returns the same set of regions.
\<close>

theorem merge_nearby_bboxes_order_independent:
  assumes t: "0 \<le> t" and valid: "\<forall>b \<in> set bboxes. valid_box t b"
    and perm: "mset bboxes' = mset bboxes"
  shows "\<exists>res res'. merge_nearby_bboxes t bboxes = Some res
                 \<and> merge_nearby_bboxes t bboxes' = Some res' \<and> set res' = set res"
proof -
  from perm have sets: "set bboxes' = set bboxes" by (rule mset_eq_setD)
  with valid have valid': "\<forall>b \<in> set bboxes'. valid_box t b" by simp
  obtain res where res: "merge_nearby_bboxes t bboxes = Some res"
    using merge_nearby_bboxes_Some [of t bboxes] by blast
  obtain res' where res': "merge_nearby_bboxes t bboxes' = Some res'"
    using merge_nearby_bboxes_Some [of t bboxes'] by blast
  note A = merge_nearby_bboxes_facts [OF t valid res]
  note B = merge_nearby_bboxes_facts [OF t valid' res']
  from A(2) sets have "covered (set bboxes') (set res)" by simp
  with B(4) [OF A(3) A(1)] have c1: "covered (set res') (set res)" .
  from B(2) sets have "covered (set bboxes) (set res')" by simp
  with A(4) [OF B(3) B(1)] have c2: "covered (set res) (set res')" .
  have "set res \<subseteq> set res'" using t A(1) B(1) A(3) c2 c1 by (rule stable_covered_subset)
  moreover have "set res' \<subseteq> set res" using t B(1) A(1) B(3) c1 c2 by (rule stable_covered_subset)
  ultimately show ?thesis using res res' by blast
qed

theorem merge_nearby_bboxes_order_independent_witness:
  "(0 :: real) \<le> 15
   \<and> valid_box 15 \<lparr>x0 = 0, y0 = 0, x1 = 10, y1 = 10\<rparr>
   \<and> valid_box 15 \<lparr>x0 = 20, y0 = 0, x1 = 30, y1 = 10\<rparr>
   \<and> mset [\<lparr>x0 = 20, y0 = 0, x1 = 30, y1 = 10\<rparr>, \<lparr>x0 = 0, y0 = 0, x1 = 10, y1 = 10\<rparr>]
     = mset [\<lparr>x0 = 0, y0 = 0, x1 = 10, y1 = 10\<rparr>, \<lparr>x0 = 20, y0 = 0, x1 = 30, y1 = 10\<rparr>]
   \<and> (\<exists>res res'.
         merge_nearby_bboxes 15 [\<lparr>x0 = 0, y0 = 0, x1 = 10, y1 = 10\<rparr>, \<lparr>x0 = 20, y0 = 0, x1 = 30, y1 = 10\<rparr>]
           = Some res
       \<and> merge_nearby_bboxes 15 [\<lparr>x0 = 20, y0 = 0, x1 = 30, y1 = 10\<rparr>, \<lparr>x0 = 0, y0 = 0, x1 = 10, y1 = 10\<rparr>]
           = Some res'
       \<and> set res' = set res)"
proof -
  let ?A = "\<lparr>x0 = 0 :: real, y0 = 0 :: real, x1 = 10 :: real, y1 = 10 :: real\<rparr>"
  let ?B = "\<lparr>x0 = 20 :: real, y0 = 0 :: real, x1 = 30 :: real, y1 = 10 :: real\<rparr>"
  have t: "(0 :: real) \<le> 15" by simp
  have v: "\<forall>b \<in> set [?A, ?B]. valid_box 15 b"
    by (simp add: valid_box_def FZ_MIN_INF_RECT_def)
  have p: "mset [?B, ?A] = mset [?A, ?B]" by simp
  from v have "valid_box 15 ?A" "valid_box 15 ?B" by simp_all
  with merge_nearby_bboxes_order_independent [OF t v p] t p show ?thesis by blast
qed

section \<open>Failure of a report-writing run\<close>

lemma update_task_status_Some:
  "db task_id = Some t \<Longrightarrow>
   update_task_status db task_id st None task_id = Some (t\<lparr>status := st\<rparr>)"
  by (simp add: update_task_status_def)

lemma update_task_status_failed:
  "db task_id = Some t \<Longrightarrow>
   update_task_status db task_id st (Some m)
     = db(task_id \<mapsto> t\<lparr>status := st,
                          status_message := if m = [] then status_message t else Some m\<rparr>)"
  by (simp add: update_task_status_def)

lemma write_sections_task:
  "db task_id = Some t \<Longrightarrow>
   \<exists>st. snd (write_sections env task_id prompt context_str sections i todo generated parts db) task_id
          = Some (t\<lparr>status := st\<rparr>)"
proof (induction todo arbitrary: i generated parts db t)
  case Nil
  then show ?case by (simp add: exI [where x = "status t"])
next
  case (Cons sec todo)
  let ?st = "''writing_section_'' @ str_nat (i + 1) @ ''_of_'' @ str_nat (length sections)"
  let ?db1 = "update_task_status db task_id ?st None"
  from Cons.prems have db1: "?db1 task_id = Some (t\<lparr>status := ?st\<rparr>)"
    by (rule update_task_status_Some)
  show ?case
  proof (cases "write_section env prompt context_str sections generated i sec")
    case (Inl e)
    with db1 show ?thesis by (auto simp: Let_def)
  next
    case (Inr r)
    obtain title content part where r: "r = (title, content, part)" by (cases r) auto
    from Cons.IH [where db = ?db1 and t = "t\<lparr>status := ?st\<rparr>" and i = "Suc i"
        and generated = "generated(title \<mapsto> content)" and parts = "parts @ [part]"] db1
    obtain st where "snd (write_sections env task_id prompt context_str sections (Suc i) todo
              (generated(title \<mapsto> content)) (parts @ [part]) ?db1) task_id
          = Some (t\<lparr>status := ?st\<rparr>\<lparr>status := st\<rparr>)" by blast
    with Inr r show ?thesis by (auto simp: Let_def)
  qed
qed

lemma run_steps_task:
  assumes "db task_id = Some task0" "run_steps env task_id db = (r, db')"
  shows "\<exists>t'. db' task_id = Some t' \<and> status_message t' = status_message task0"
proof -
  let ?P = "\<lambda>d. \<exists>t'. d task_id = Some t' \<and> status_message t' = status_message task0"
  have upd: "?P d \<Longrightarrow> ?P (update_task_status d task_id st None)" for d st
    by (auto simp: update_task_status_def)
  have com_o: "?P d \<Longrightarrow> ?P (commit_task d task_id (\<lambda>t. t\<lparr>outline_json := x\<rparr>))" for d x
    by (auto simp: commit_task_def)
  have com_m: "?P d \<Longrightarrow> ?P (commit_task d task_id (\<lambda>t. t\<lparr>final_markdown_content := x\<rparr>))" for d x
    by (auto simp: commit_task_def)
  have com_f: "?P d \<Longrightarrow> ?P (commit_task d task_id (\<lambda>t. t\<lparr>final_content := x\<rparr>))" for d x
    by (auto simp: commit_task_def)
  have ws: "?P d'"
    if "write_sections env task_id p c s i todo g parts d = (res, d')" "?P d"
    for d d' p c s i todo g parts res
  proof -
    from that(2) obtain t where t: "d task_id = Some t" "status_message t = status_message task0"
      by blast
    from write_sections_task [where db = d and task_id = task_id and t = t and env = env
        and prompt = p and context_str = c and sections = s and i = i and todo = todo
        and generated = g and parts = parts] t that(1)
    show ?thesis by auto
  qed
  have P0: "?P db" using assms(1) by simp
  note steps = upd com_o com_m com_f
  from assms show ?thesis
    unfolding run_steps_def Let_def
    by (auto split: sum.splits prod.splits intro!: steps P0 intro: ws)
qed

lemma run_steps_outline:
  assumes db: "db task_id = Some task0" and run: "run_steps env task_id db = (r, db')"
    and g: "gather_context_call env (project_id task0) (user_prompt task0) = Inr ctx"
    and c: "chat_call env (outline_prompt env (user_prompt task0) ctx) = Inr raw"
    and p: "parse_outline env (extract_json_from_llm_response raw) = Inr sv"
  shows "\<exists>t'. db' task_id = Some t' \<and> outline_json t' = Some (extract_json_from_llm_response raw)"
proof -
  let ?E = "\<lambda>d. \<exists>t'. d task_id = Some t'"
  let ?Q = "\<lambda>d. \<exists>t'. d task_id = Some t'
                \<and> outline_json t' = Some (extract_json_from_llm_response raw)"
  have updE: "?E d \<Longrightarrow> ?E (update_task_status d task_id st None)" for d st
    by (auto simp: update_task_status_def)
  have upd: "?Q d \<Longrightarrow> ?Q (update_task_status d task_id st None)" for d st
    by (auto simp: update_task_status_def)
  have com_o: "?E d \<Longrightarrow> ?Q (commit_task d task_id
                 (\<lambda>t. t\<lparr>outline_json := Some (extract_json_from_llm_response raw)\<rparr>))" for d
    by (auto simp: commit_task_def)
  have com_m: "?Q d \<Longrightarrow> ?Q (commit_task d task_id (\<lambda>t. t\<lparr>final_markdown_content := x\<rparr>))" for d x
    by (auto simp: commit_task_def)
  have com_f: "?Q d \<Longrightarrow> ?Q (commit_task d task_id (\<lambda>t. t\<lparr>final_content := x\<rparr>))" for d x
    by (auto simp: commit_task_def)
  have ws: "?Q d'"
    if "write_sections env task_id p c s i todo g parts d = (res, d')" "?Q d"
    for d d' p c s i todo g parts res
  proof -
    from that(2) obtain t where t: "d task_id = Some t"
      "outline_json t = Some (extract_json_from_llm_response raw)" by blast
    from write_sections_task [where db = d and task_id = task_id and t = t and env = env
        and prompt = p and context_str = c and sections = s and i = i and todo = todo
        and generated = g and parts = parts] t that(1)
    show ?thesis by auto
  qed
  have E0: "?E db" using db by simp
  note steps = upd com_m com_f
  from db run g c p show ?thesis
    unfolding run_steps_def Let_def
    by (auto split: sum.splits prod.splits intro!: steps com_o updE E0 intro: ws)
qed

text \<open>
  C3, amended. When the \<open>try\<close> block of a run on an existing Task raises \<open>e\<close>, the
  Task ends with status \<open>failed\<close>. The exception's message becomes the status message
  when it is not empty; an empty message leaves the status message the Task had before
  the run. Every other column is as committed at the moment of the failure, so the
  artifacts stored before it stay; and once the outline has been parsed, the extracted
  outline text is the stored outline whatever fails afterwards.
\<close>

theorem run_report_writing_task_failure:
  assumes db: "db task_id = Some task0"
    and run: "run_steps env task_id db = (Inl e, db')"
  shows "\<exists>t'. db' task_id = Some t'
       \<and> run_report_writing_task env task_id db
           = db'(task_id \<mapsto> t'\<lparr>status := ''failed'',
                                 status_message := (if exn_str e = [] then status_message task0
                                                    else Some (exn_str e))\<rparr>)
       \<and> (\<forall>ctx raw sv.
             gather_context_call env (project_id task0) (user_prompt task0) = Inr ctx
           \<longrightarrow> chat_call env (outline_prompt env (user_prompt task0) ctx) = Inr raw
           \<longrightarrow> parse_outline env (extract_json_from_llm_response raw) = Inr sv
           \<longrightarrow> outline_json t' = Some (extract_json_from_llm_response raw))"
proof -
  from run_steps_task [OF db run] obtain t' where
    t': "db' task_id = Some t'" and sm: "status_message t' = status_message task0" by blast
  have "run_report_writing_task env task_id db
          = update_task_status db' task_id ''failed'' (Some (exn_str e))"
    using run by (simp add: run_report_writing_task_def)
  also have "\<dots> = db'(task_id \<mapsto> t'\<lparr>status := ''failed'',
                          status_message := (if exn_str e = [] then status_message task0
                                             else Some (exn_str e))\<rparr>)"
    using t' sm by (simp add: update_task_status_failed)
  finally have fin: "run_report_writing_task env task_id db
           = db'(task_id \<mapsto> t'\<lparr>status := ''failed'',
                                 status_message := (if exn_str e = [] then status_message task0
                                                    else Some (exn_str e))\<rparr>)" .
  have "outline_json t' = Some (extract_json_from_llm_response raw)"
    if "gather_context_call env (project_id task0) (user_prompt task0) = Inr ctx"
      "chat_call env (outline_prompt env (user_prompt task0) ctx) = Inr raw"
      "parse_outline env (extract_json_from_llm_response raw) = Inr sv" for ctx raw sv
    using run_steps_outline [OF db run that] t' by simp
  with t' fin show ?thesis by blast
qed

lemma str_nat_1: "str_nat (Suc 0) = ''1''"
  by (simp add: str_nat.simps digit_char_def)

lemma extract_example: "extract_json_from_llm_response ''Here it is: {}'' = ''{}''"
  by (simp add: extract_json_from_llm_response_def rfind_char_def slice_def escape_backslashes_def
      Let_def)

lemma run_steps_section_fails:
  "run_steps env_section_fails 1 [1 \<mapsto> queued_task]
     = (Inl (Exn ResponseError ''model not found''),
        [1 \<mapsto> queued_task\<lparr>status := ''writing_section_1_of_1'', outline_json := Some ''{}''\<rparr>])"
  by (simp add: run_steps_def env_section_fails_def env_gather_fails_def queued_task_def
      update_task_status_def commit_task_def parse_outline_def except_JSONDecodeError_def
      write_section_def extract_example str_nat_1 Let_def)

theorem run_report_writing_task_failure_witness:
  "[1 \<mapsto> queued_task] (1 :: nat) = Some queued_task
   \<and> run_steps env_section_fails 1 [1 \<mapsto> queued_task]
     = (Inl (Exn ResponseError ''model not found''),
        [1 \<mapsto> queued_task\<lparr>status := ''writing_section_1_of_1'', outline_json := Some ''{}''\<rparr>])
   \<and> run_report_writing_task env_section_fails 1 [1 \<mapsto> queued_task] 1
     = Some (queued_task\<lparr>status := ''failed'', status_message := Some ''model not found'',
                         outline_json := Some ''{}''\<rparr>)"
proof -
  have db: "[1 \<mapsto> queued_task] (1 :: nat) = Some queued_task" by simp
  note run = run_steps_section_fails
  from run_report_writing_task_failure [OF db run] obtain t' where
    t': "[(1 :: nat) \<mapsto> queued_task\<lparr>status := ''writing_section_1_of_1'',
                                       outline_json := Some ''{}''\<rparr>] 1 = Some t'"
    and fin: "run_report_writing_task env_section_fails 1 [1 \<mapsto> queued_task]
           = [1 \<mapsto> queued_task\<lparr>status := ''writing_section_1_of_1'', outline_json := Some ''{}''\<rparr>]
               (1 \<mapsto> t'\<lparr>status := ''failed'',
                          status_message := (if exn_str (Exn ResponseError ''model not found'') = []
                                             then status_message queued_task
                                             else Some (exn_str (Exn ResponseError ''model not found'')))\<rparr>)"
    by blast
  from t' have "t' = queued_task\<lparr>status := ''writing_section_1_of_1'', outline_json := Some ''{}''\<rparr>"
    by simp
  with fin have "run_report_writing_task env_section_fails 1 [1 \<mapsto> queued_task] 1
     = Some (queued_task\<lparr>status := ''failed'', status_message := Some ''model not found'',
                         outline_json := Some ''{}''\<rparr>)"
    by (simp add: queued_task_def)
  with db run show ?thesis by blast
qed

text \<open>
  C3, as stated, fails for an exception with an empty message: a Task that failed
  before (status message \<open>old error\<close>) and is run again, the context assembler raising
  a bare \<open>AssertionError\<close>, ends \<open>failed\<close> with the old message still in place.
\<close>

theorem run_report_writing_task_empty_message_counterexample:
  "run_steps env_gather_fails 1
       [1 \<mapsto> queued_task\<lparr>status := ''failed'', status_message := Some ''old error''\<rparr>]
     = (Inl (Exn AssertionError []),
        [1 \<mapsto> queued_task\<lparr>status := ''gathering_context'', status_message := Some ''old error''\<rparr>])
   \<and> run_report_writing_task env_gather_fails 1
       [1 \<mapsto> queued_task\<lparr>status := ''failed'', status_message := Some ''old error''\<rparr>] 1
     = Some (queued_task\<lparr>status := ''failed'', status_message := Some ''old error''\<rparr>)
   \<and> Some ''old error'' \<noteq> Some (exn_str (Exn AssertionError []))"
  by (simp add: run_report_writing_task_def run_steps_def env_gather_fails_def queued_task_def
      update_task_status_def Let_def)

section \<open>Starting a run\<close>

text \<open>The guard of \<open>run_task\<close>: a status that starts with \<open>writing\<close> or
  \<open>generating\<close> is answered with 409 and no thread is started.\<close>

lemma run_task_refuses_running:
  assumes "tasks srv task_id = Some t"
    and "startswith (status t) ''writing'' \<or> startswith (status t) ''generating''"
  shows "run_task srv task_id = ((409, ''Task is already running''), srv)"
  using assms by (simp add: run_task_def)

text \<open>
  C2 at the input where the code departs from it. A queued Task is started (202, one
  thread); the thread's first step commits the status \<open>gathering_context\<close>; a second
  request for the same Task is then answered 202 again and a second thread is started,
  since \<open>gathering_context\<close> starts with neither \<open>writing\<close> nor \<open>generating\<close>.
\<close>

theorem run_task_restarts_gathering_context:
  "run_task \<lparr>tasks = [1 \<mapsto> queued_task], threads = []\<rparr> 1
     = ((202, ''Report generation task started.''),
        \<lparr>tasks = [1 \<mapsto> queued_task], threads = [1]\<rparr>)
   \<and> update_task_status [1 \<mapsto> queued_task] 1 ''gathering_context'' None
     = [1 \<mapsto> queued_task\<lparr>status := ''gathering_context''\<rparr>]
   \<and> run_task \<lparr>tasks = [1 \<mapsto> queued_task\<lparr>status := ''gathering_context''\<rparr>], threads = [1]\<rparr> 1
     = ((202, ''Report generation task started.''),
        \<lparr>tasks = [1 \<mapsto> queued_task\<lparr>status := ''gathering_context''\<rparr>], threads = [1, 1]\<rparr>)"
  by (simp add: run_task_def startswith_def queued_task_def update_task_status_def)

section \<open>Nearest neighbours through the mapping\<close>

lemma nearest_first_set: "set (nearest_first ix q) = {0 ..< ntotal ix}"
  by (simp add: nearest_first_def)

lemma nearest_first_distinct: "distinct (nearest_first ix q)"
  by (simp add: nearest_first_def)

lemma nearest_first_length: "length (nearest_first ix q) = ntotal ix"
  by (simp add: nearest_first_def)

lemma nearest_first_sorted: "sorted (map (\<lambda>p. sqdist (xb ix ! p) q) (nearest_first ix q))"
  by (simp add: nearest_first_def)

lemma take_sorted_nearest:
  assumes srt: "sorted (map f xs)" and p: "p \<in> set (take k xs)"
    and p': "p' \<in> set xs" "p' \<notin> set (take k xs)"
  shows "f p \<le> f p'"
proof -
  from p obtain i where i: "i < length (take k xs)" "take k xs ! i = p"
    by (auto simp: in_set_conv_nth)
  then have ik: "i < k" "i < length xs" "xs ! i = p" by simp_all
  from p'(1) obtain j where j: "j < length xs" "xs ! j = p'" by (auto simp: in_set_conv_nth)
  have "k \<le> j"
  proof (rule ccontr)
    assume "\<not> k \<le> j"
    with j have "j < length (take k xs)" "take k xs ! j = p'" by simp_all
    then have "p' \<in> set (take k xs)" by (metis nth_mem)
    with p'(2) show False by simp
  qed
  with ik have "i \<le> j" by simp
  with srt j(1) have "map f xs ! i \<le> map f xs ! j"
    by (simp add: sorted_iff_nth_mono)
  with ik j show ?thesis by simp
qed

lemma index_inv_lookup:
  assumes "index_inv ix m" "p < ntotal ix"
  shows "\<exists>e. m (str_int (int p)) = Some e"
proof -
  from assms have "str_int (int p) \<in> dom m" by (simp add: index_inv_dom)
  then show ?thesis by blast
qed

lemma index_inv_padding:
  assumes "index_inv ix m"
  shows "m (str_int (- 1)) = None"
proof -
  have "str_int (- 1) \<notin> dom m"
  proof
    assume "str_int (- 1) \<in> dom m"
    with assms obtain p where "str_int (- 1) = str_int (int p)" by (auto simp: index_inv_dom)
    then have "- 1 = int p" by (rule str_int_inj)
    then show False by simp
  qed
  then show ?thesis by blast
qed

lemma relevant_chunks_resolved:
  assumes "\<forall>p \<in> set ps. \<exists>e. m (str_int (int p)) = Some e"
  shows "relevant_chunks m (map int ps)
           = Inr (map (\<lambda>p. chunk_text (the (m (str_int (int p))))) ps)"
  using assms by (induction ps) (auto simp: dict_get_def)

text \<open>
  C9. For an index of \<open>n \<ge> 1\<close> vectors with its mapping (the invariant), a query of
  the index's dimension and \<open>k = RAG_TOP_K \<ge> 1\<close>: there are \<open>min k n\<close> distinct
  stored positions \<open>ps\<close>, none farther from the query than any position left out,
  with mapping entries \<open>es\<close>, such that \<open>answer_question\<close> retrieves the chunk texts
  of \<open>es\<close> (nearest first) and the text search of \<open>_gather_context\<close> contributes
  exactly the snippets of \<open>es\<close>; when \<open>n < k\<close> these are all \<open>n\<close> stored entries.
\<close>

theorem search_returns_k_nearest:
  assumes inv: "index_inv ix m" and q: "length emb = dim ix"
    and K: "0 < RAG_TOP_K env" and n: "0 < ntotal ix"
  shows "\<exists>ps es. distinct ps \<and> set ps \<subseteq> {0 ..< ntotal ix}
       \<and> length ps = min (RAG_TOP_K env) (ntotal ix)
       \<and> (\<forall>p \<in> set ps. \<forall>p' < ntotal ix. p' \<notin> set ps \<longrightarrow>
             sqdist (xb ix ! p) (map (to_f32 env) emb) \<le> sqdist (xb ix ! p') (map (to_f32 env) emb))
       \<and> map (\<lambda>p. m (str_int (int p))) ps = map Some es
       \<and> knn_chunks env ix m emb = Inr (map chunk_text es)
       \<and> text_search env ix m (map (to_f32 env) emb) = Inr (text_snippet ` set es)
       \<and> (ntotal ix < RAG_TOP_K env \<longrightarrow> set ps = {0 ..< ntotal ix})"
proof -
  let ?q = "map (to_f32 env) emb"
  let ?K = "RAG_TOP_K env"
  let ?xs = "nearest_first ix ?q"
  let ?f = "\<lambda>p. sqdist (xb ix ! p) ?q"
  define ps where "ps = take ?K ?xs"
  define es where "es = map (\<lambda>p. the (m (str_int (int p)))) ps"
  have sub: "set ps \<subseteq> {0 ..< ntotal ix}"
    unfolding ps_def using set_take_subset [of ?K ?xs] by (simp add: nearest_first_set)
  have dist: "distinct ps" unfolding ps_def by (simp add: nearest_first_distinct)
  have len: "length ps = min ?K (ntotal ix)" unfolding ps_def by (simp add: nearest_first_length)
  have near: "?f p \<le> ?f p'" if "p \<in> set ps" "p' < ntotal ix" "p' \<notin> set ps" for p p'
  proof -
    from that(2) have a: "p' \<in> set ?xs" by (simp add: nearest_first_set)
    from that(1) have b: "p \<in> set (take ?K ?xs)" by (simp add: ps_def)
    from that(3) have c: "p' \<notin> set (take ?K ?xs)" by (simp add: ps_def)
    from take_sorted_nearest [OF nearest_first_sorted b a c] show ?thesis .
  qed
  have look: "\<forall>p \<in> set ps. \<exists>e. m (str_int (int p)) = Some e"
  proof
    fix p assume "p \<in> set ps"
    with sub have "p < ntotal ix" by auto
    with inv show "\<exists>e. m (str_int (int p)) = Some e" by (rule index_inv_lookup)
  qed
  then have res: "map (\<lambda>p. m (str_int (int p))) ps = map Some es"
    unfolding es_def by auto
  have take_min: "take (min ?K (ntotal ix)) ?xs = ps"
    unfolding ps_def by (simp add: min_def nearest_first_length)
  have "index_search ix ?q (min ?K (ntotal ix)) = Inr (map int ps)"
    using q K n by (simp add: index_search_def take_min)
  then have knn: "knn_chunks env ix m emb = Inr (map chunk_text es)"
    using relevant_chunks_resolved [OF look] by (simp add: knn_chunks_def es_def comp_def)
  have search: "index_search ix ?q ?K = Inr (map int ps @ replicate (?K - ntotal ix) (- 1))"
    using q K by (simp add: index_search_def ps_def)
  have "{text_snippet e | e idx. idx \<in> set (map int ps @ replicate (?K - ntotal ix) (- 1))
                              \<and> m (str_int idx) = Some e} = text_snippet ` set es"
    (is "?L = ?R")
  proof
    show "?L \<subseteq> ?R"
    proof
      fix x assume "x \<in> ?L"
      then obtain e idx where x: "x = text_snippet e" "m (str_int idx) = Some e"
        and idx: "idx \<in> set (map int ps @ replicate (?K - ntotal ix) (- 1))" by blast
      from idx x(2) index_inv_padding [OF inv] obtain p where p: "p \<in> set ps" "idx = int p"
        by auto
      with x have "e = the (m (str_int (int p)))" by simp
      with p have "e \<in> set es" by (auto simp: es_def)
      with x show "x \<in> ?R" by blast
    qed
    show "?R \<subseteq> ?L"
    proof
      fix x assume "x \<in> ?R"
      then obtain p where p: "p \<in> set ps" "x = text_snippet (the (m (str_int (int p))))"
        by (auto simp: es_def)
      with look obtain e where e: "m (str_int (int p)) = Some e" by blast
      from p(1) have "int p \<in> set (map int ps @ replicate (?K - ntotal ix) (- 1))" by simp
      moreover from p(2) e have "x = text_snippet e" by simp
      ultimately show "x \<in> ?L" using e by blast
    qed
  qed
  with search have tsearch: "text_search env ix m ?q = Inr (text_snippet ` set es)"
    by (simp add: text_search_def text_results_items)
  have all: "set ps = {0 ..< ntotal ix}" if "ntotal ix < ?K"
    using that unfolding ps_def by (simp add: nearest_first_length nearest_first_set)
  from dist sub len near res knn tsearch all show ?thesis by blast
qed

lemma str_int_small: "str_int 0 = ''0''" "str_int 1 = ''1''" "str_int (- 1) = ''-1''"
  by (simp_all add: str_int_def str_nat.simps digit_char_def)

lemma env_example_sel:
  "embed env_example s = Inr [4]"
  "chat env_example p = Inr ''This project has no documents to search.''"
  "RAG_TOP_K env_example = 1"
  "to_f32 env_example x = x"
  "read_index_missing env_example = Exn RuntimeError ''could not open docs.index for reading''"
  by (simp_all add: env_example_def)

lemma index_example_sel: "dim index_example = 1" "ntotal index_example = 2"
  "xb index_example = [[0], [5]]"
  by (simp_all add: index_example_def ntotal_def)

lemma mapping_example_sel:
  "mapping_example ''0'' = Some \<lparr>doc_id = 1, chunk_text = ''a''\<rparr>"
  "mapping_example ''1'' = Some \<lparr>doc_id = 1, chunk_text = ''b''\<rparr>"
  "dom mapping_example = {''0'', ''1''}"
  by (auto simp: mapping_example_def)

lemma index_inv_example: "index_inv index_example mapping_example"
proof -
  have "\<exists>p < 2. ''0'' = str_int (int p)"
    by (rule exI [where x = 0]) (simp add: str_int_small)
  moreover have "\<exists>p < 2. ''1'' = str_int (int p)"
    by (rule exI [where x = 1]) (simp add: str_int_small)
  ultimately show ?thesis
    by (simp add: index_inv_def index_example_sel mapping_example_sel)
qed

lemma nearest_first_example: "nearest_first index_example [4] = [1, 0]"
proof -
  have "[0 ..< 2] = [0, Suc 0]" by (simp add: upt_rec)
  then show ?thesis
    by (simp add: nearest_first_def index_example_sel sqdist_def)
qed

lemma index_search_example: "index_search index_example [4] (Suc 0) = Inr [1]"
  by (simp add: index_search_def index_example_sel nearest_first_example)

lemma knn_chunks_example: "knn_chunks env_example index_example mapping_example [4] = Inr [''b'']"
  by (simp add: knn_chunks_def env_example_sel index_example_sel index_search_example
      dict_get_def mapping_example_sel str_int_small)

theorem search_returns_k_nearest_witness:
  "index_inv index_example mapping_example
   \<and> length [4 :: real] = dim index_example
   \<and> 0 < RAG_TOP_K env_example
   \<and> 0 < ntotal index_example
   \<and> ntotal index_example < RAG_TOP_K (env_example\<lparr>RAG_TOP_K := 5\<rparr>)
   \<and> knn_chunks env_example index_example mapping_example [4] = Inr [''b'']
   \<and> (\<exists>ps es. distinct ps \<and> set ps \<subseteq> {0 ..< ntotal index_example}
       \<and> length ps = min (RAG_TOP_K env_example) (ntotal index_example)
       \<and> map (\<lambda>p. mapping_example (str_int (int p))) ps = map Some es
       \<and> knn_chunks env_example index_example mapping_example [4] = Inr (map chunk_text es)
       \<and> text_search env_example index_example mapping_example (map (to_f32 env_example) [4])
           = Inr (text_snippet ` set es))
   \<and> (\<exists>ps es. set ps = {0 ..< ntotal index_example}
       \<and> map (\<lambda>p. mapping_example (str_int (int p))) ps = map Some es
       \<and> knn_chunks (env_example\<lparr>RAG_TOP_K := 5\<rparr>) index_example mapping_example [4]
           = Inr (map chunk_text es)
       \<and> text_search (env_example\<lparr>RAG_TOP_K := 5\<rparr>) index_example mapping_example
             (map (to_f32 (env_example\<lparr>RAG_TOP_K := 5\<rparr>)) [4])
           = Inr (text_snippet ` set es))"
proof -
  let ?env5 = "env_example\<lparr>RAG_TOP_K := 5\<rparr>"
  have q: "length [4 :: real] = dim index_example" by (simp add: index_example_sel)
  have K: "0 < RAG_TOP_K env_example" by (simp add: env_example_sel)
  have K5: "0 < RAG_TOP_K ?env5" by simp
  have n: "0 < ntotal index_example" by (simp add: index_example_sel)
  have less: "ntotal index_example < RAG_TOP_K ?env5" by (simp add: index_example_sel)
  from search_returns_k_nearest [OF index_inv_example q K n]
  have one: "\<exists>ps es. distinct ps \<and> set ps \<subseteq> {0 ..< ntotal index_example}
       \<and> length ps = min (RAG_TOP_K env_example) (ntotal index_example)
       \<and> map (\<lambda>p. mapping_example (str_int (int p))) ps = map Some es
       \<and> knn_chunks env_example index_example mapping_example [4] = Inr (map chunk_text es)
       \<and> text_search env_example index_example mapping_example (map (to_f32 env_example) [4])
           = Inr (text_snippet ` set es)"
    by blast
  from search_returns_k_nearest [OF index_inv_example q K5 n] less
  have five: "\<exists>ps es. set ps = {0 ..< ntotal index_example}
       \<and> map (\<lambda>p. mapping_example (str_int (int p))) ps = map Some es
       \<and> knn_chunks ?env5 index_example mapping_example [4] = Inr (map chunk_text es)
       \<and> text_search ?env5 index_example mapping_example (map (to_f32 ?env5) [4])
           = Inr (text_snippet ` set es)"
    by blast
  from index_inv_example q K n less knn_chunks_example one five show ?thesis by blast
qed

section \<open>A project without index\<close>

text \<open>
  C5, amended. For a project whose index file does not exist, \<open>_gather_context\<close>
  raises (the RuntimeError of the source when the library reports FileNotFoundError,
  the library's own exception otherwise), which no search that succeeds does;
  \<open>answer_question\<close> raises nothing and returns the fixed sentence as its answer.
\<close>

theorem missing_index_outcomes:
  assumes "index_file fs = None"
  shows "answer_question env fs question = Inr ''This project has no documents to search.''
       \<and> gather_context env docs fs prompt
           = Inl (if exn_cls (read_index_missing env) = FileNotFoundError
                  then Exn RuntimeError ''Project text index not found. Please add documents.''
                  else read_index_missing env)"
  using assms by (simp add: answer_question_def gather_context_def load_text_index_def)

theorem missing_index_outcomes_witness:
  "index_file \<lparr>index_file = None, mapping_file = None\<rparr> = None
   \<and> answer_question env_example \<lparr>index_file = None, mapping_file = None\<rparr> ''What is b?''
       = Inr ''This project has no documents to search.''
   \<and> gather_context env_example [] \<lparr>index_file = None, mapping_file = None\<rparr> ''b''
       = Inl (Exn RuntimeError ''could not open docs.index for reading'')"
proof -
  have h: "index_file \<lparr>index_file = None, mapping_file = None\<rparr> = None" by simp
  from missing_index_outcomes [OF h, of env_example "''What is b?''" "[]" "''b''"] h
  show ?thesis by (simp add: env_example_sel)
qed

text \<open>
  C5, as stated, fails for \<open>answer_question\<close>: with a chat model that happens to answer
  with the same sentence, the answer for a project that has an index (and whose search
  found the chunk \<open>b\<close>) is the very value returned for a project without index, so
  the caller cannot tell the two apart.
\<close>

theorem answer_question_not_found_counterexample:
  "knn_chunks env_example index_example mapping_example [4] = Inr [''b'']
   \<and> answer_question env_example
         \<lparr>index_file = Some index_example, mapping_file = Some mapping_example\<rparr> ''What is b?''
       = Inr ''This project has no documents to search.''
   \<and> answer_question env_example \<lparr>index_file = None, mapping_file = None\<rparr> ''What is b?''
       = Inr ''This project has no documents to search.''"
  by (simp add: answer_question_def knn_chunks_example env_example_sel)

section \<open>The bibliographic key\<close>

lemma first_word_surname:
  assumes "CHR '' '' \<notin> set surname" "rest = [] \<or> hd rest = CHR '' ''"
  shows "first_word (surname @ rest) = surname"
proof (cases rest)
  case Nil
  with assms(1) show ?thesis by (auto simp: first_word_def)
next
  case (Cons c cs)
  with assms(2) have "c = CHR '' ''" by simp
  with Cons assms(1) show ?thesis by (auto simp: first_word_def takeWhile_tail)
qed

lemma insert_document_unique:
  assumes "unique_keys docs" "insert_document docs d = Inr docs'"
  shows "unique_keys docs' \<and> (\<exists>pk. docs' = docs @ [d\<lparr>doc_pk := pk\<rparr>])
       \<and> (bibtex_key d \<noteq> None \<longrightarrow> bibtex_key d \<notin> set (map bibtex_key docs))"
  using assms by (auto simp: insert_document_def unique_keys_def split: if_splits)

text \<open>
  C6, amended. When the extracted author field starts with the first author's surname
  (the surname has no space and is followed by a space or by nothing) and the title is
  not empty, the key of the document that \<open>process_and_embed_document\<close> stores is the
  capitalised surname, the year, an underscore and the capitalised first word of the
  title. The document is stored only when no stored document has this key, so the
  stored keys stay pairwise different (over all projects, hence within the project);
  otherwise the table is unchanged.
\<close>

theorem bib_key_stored_unique:
  assumes uniq: "unique_keys docs"
    and run: "process_and_embed_document env (docs, fs) project doc_chunks (Inr metadata)
                doc_type fname = (r, (docs', fs'))"
    and meta: "metadata ''author'' = Some (surname @ rest)" "metadata ''year'' = Some year"
      "metadata ''title'' = Some title_text"
    and surname: "surname \<noteq> []" "CHR '' '' \<notin> set surname" "rest = [] \<or> hd rest = CHR '' ''"
    and ne: "title_text \<noteq> []"
  shows "unique_keys docs'
       \<and> (docs' = docs
          \<or> (\<exists>d. docs' = docs @ [d]
                \<and> bibtex_key d = Some (capitalize surname @ year @ ''_''
                                         @ capitalize (first_word title_text))
                \<and> bibtex_key d \<notin> set (map bibtex_key docs)))"
proof -
  let ?key = "capitalize surname @ year @ ''_'' @ capitalize (first_word title_text)"
  have fw: "first_word (surname @ rest) = surname"
    using surname(2,3) by (rule first_word_surname)
  have key: "make_bib_key (get_default metadata ''author'' []) (get_default metadata ''year'' [])
               (get_default metadata ''title'' ''Untitled'') = ?key"
    using meta ne surname(1) by (simp add: make_bib_key_def get_default_def fw)
  let ?new = "\<lparr>doc_pk = 0, doc_project_id = project, filename = fname,
                     document_type = doc_type, title = title_text,
                     description = get_default metadata ''description'' [],
                     bibtex_key = Some ?key, bibtex_author = surname @ rest, bibtex_year = year,
                     bibtex_full_entry =
                       make_bibtex_entry doc_type metadata ?key (surname @ rest) title_text year,
                     figures = []\<rparr>"
  show ?thesis
  proof (cases "doc_chunks = []")
    case True
    with run uniq show ?thesis by (simp add: process_and_embed_document_def)
  next
    case False
    show ?thesis
    proof (cases "insert_document docs ?new")
      case (Inl e)
      with run False key meta have "docs' = docs"
        by (simp add: process_and_embed_document_def Let_def get_default_def)
      with uniq show ?thesis by simp
    next
      case (Inr ds)
      with run False key meta have "docs' = ds"
        by (auto simp: process_and_embed_document_def Let_def get_default_def
            split: sum.splits)
      with insert_document_unique [OF uniq Inr] show ?thesis by auto
    qed
  qed
qed

lemma metadata_example_sel:
  "metadata_example ''author'' = Some (''Smith'' @ '' and Jones'')"
  "metadata_example ''year'' = Some ''2024''"
  "metadata_example ''title'' = Some ''DNA repair''"
  by (simp_all add: metadata_example_def)

lemma process_example:
  "\<exists>r d fs'. process_and_embed_document env_example ([], \<lparr>index_file = None, mapping_file = None\<rparr>)
           1 [''text''] (Inr metadata_example) ''misc'' ''a.txt'' = (r, ([d], fs'))"
  by (simp add: process_and_embed_document_def insert_document_def Let_def env_example_sel
      update_faiss_index_def index_add_def ntotal_def)

theorem bib_key_stored_unique_witness:
  "unique_keys []
   \<and> metadata_example ''author'' = Some (''Smith'' @ '' and Jones'')
   \<and> metadata_example ''year'' = Some ''2024''
   \<and> metadata_example ''title'' = Some ''DNA repair''
   \<and> CHR '' '' \<notin> set ''Smith''
   \<and> hd '' and Jones'' = CHR '' ''
   \<and> (\<exists>r d fs'.
         process_and_embed_document env_example ([], \<lparr>index_file = None, mapping_file = None\<rparr>)
           1 [''text''] (Inr metadata_example) ''misc'' ''a.txt'' = (r, ([d], fs'))
       \<and> unique_keys [d]
       \<and> bibtex_key d = Some ''Smith2024_Dna'')"
proof -
  have u: "unique_keys []" by (simp add: unique_keys_def)
  from process_example obtain r d fs' where
    run: "process_and_embed_document env_example ([], \<lparr>index_file = None, mapping_file = None\<rparr>)
           1 [''text''] (Inr metadata_example) ''misc'' ''a.txt'' = (r, ([d], fs'))" by blast
  have s: "''Smith'' \<noteq> []" "CHR '' '' \<notin> set ''Smith''"
    "'' and Jones'' = [] \<or> hd '' and Jones'' = CHR '' ''" by simp_all
  have ne: "''DNA repair'' \<noteq> []" by simp
  from bib_key_stored_unique [OF u run metadata_example_sel s ne]
  have "unique_keys [d]"
    and "bibtex_key d = Some (capitalize ''Smith'' @ ''2024'' @ ''_''
                               @ capitalize (first_word ''DNA repair''))"
    by auto
  moreover have "capitalize ''Smith'' @ ''2024'' @ ''_''
                   @ capitalize (first_word ''DNA repair'') = ''Smith2024_Dna''"
    by (simp add: capitalize_def first_word_def ascii_upper_def ascii_lower_def)
  ultimately show ?thesis using u run metadata_example_sel by auto
qed

text \<open>
  C6, as stated, fails: the key is built from the first word of the author field, which
  for \<open>John Smith\<close> is the given name, and \<open>capitalize\<close> lowers every letter after
  the first, so the title word \<open>DNA\<close> enters the key as \<open>Dna\<close>.
\<close>

theorem bib_key_counterexample:
  "make_bib_key ''John Smith'' ''2024'' ''DNA repair'' = ''John2024_Dna''
   \<and> spec_bib_key ''Smith'' ''2024'' ''DNA'' = ''Smith2024_DNA''
   \<and> make_bib_key ''Smith'' ''2024'' ''DNA repair'' = ''Smith2024_Dna''
   \<and> make_bib_key ''John Smith'' ''2024'' ''DNA repair'' \<noteq> spec_bib_key ''Smith'' ''2024'' ''DNA''
   \<and> make_bib_key ''Smith'' ''2024'' ''DNA repair'' \<noteq> spec_bib_key ''Smith'' ''2024'' ''DNA''"
  by (simp add: make_bib_key_def spec_bib_key_def capitalize_def first_word_def
      ascii_upper_def ascii_lower_def)

section \<open>Extracting the outline JSON\<close>

lemma escape_backslashes_Nil: "escape_backslashes [] = []"
  by (simp add: escape_backslashes_def)

lemma escape_backslashes_Cons:
  "escape_backslashes (c # cs) =
     (if c = backslash then backslash # backslash # escape_backslashes cs
      else c # escape_backslashes cs)"
  by (simp add: escape_backslashes_def backslash_def)

lemma backslash_class:
  "\<not> is_ws backslash" "punct backslash = None" "backslash \<noteq> dquote" "\<not> is_word_char backslash"
  "escape_sequence (backslash # s) = Some (0x5C, s)"
  by (simp_all add: is_ws_def punct_def backslash_def dquote_def is_word_char_def
      escape_sequence_def escape_char_def)

lemma lex_escaped:
  "lex False mode (escape_backslashes s) = lex True mode s"
proof (induction s arbitrary: mode)
  case Nil
  show ?case by (cases mode) (simp_all add: escape_backslashes_Nil)
next
  case (Cons c cs)
  have out: "lex False Outside (escape_backslashes (c # cs)) = lex True Outside (c # cs)"
  proof (cases "c = backslash")
    case True
    then show ?thesis by (simp add: escape_backslashes_Cons backslash_class)
  next
    case False
    then show ?thesis by (simp add: escape_backslashes_Cons Cons.IH split: option.split)
  qed
  show ?case
  proof (cases mode)
    case Outside
    with out show ?thesis by simp
  next
    case (InString acc)
    show ?thesis
    proof (cases "c = backslash")
      case True
      with InString show ?thesis
        by (simp add: escape_backslashes_Cons backslash_class Cons.IH)
    next
      case False
      with InString show ?thesis by (simp add: escape_backslashes_Cons Cons.IH)
    qed
  next
    case (InWord w)
    show ?thesis
    proof (cases "is_word_char c")
      case True
      then have "c \<noteq> backslash" using backslash_class(4) by auto
      with True InWord show ?thesis by (simp add: escape_backslashes_Cons Cons.IH)
    next
      case False
      have "lex False (InWord w) (escape_backslashes (c # cs))
              = add_token (TWord (rev w)) (lex False Outside (escape_backslashes (c # cs)))"
        using False by (simp add: escape_backslashes_Cons backslash_class)
      also have "\<dots> = add_token (TWord (rev w)) (lex True Outside (c # cs))"
        by (simp only: out)
      also have "\<dots> = lex True (InWord w) (c # cs)" using False by simp
      finally show ?thesis using InWord by simp
    qed
  qed
qed

lemma json_decode_escaped: "json_loads (escape_backslashes s) = json_decode True s"
  by (simp add: json_loads_def json_decode_def lex_escaped)

lemma escape_backslashes_id: "backslash \<notin> set s \<Longrightarrow> escape_backslashes s = s"
  by (induction s) (auto simp: escape_backslashes_Nil escape_backslashes_Cons)

lemma find_char_first: "c \<notin> set pre \<Longrightarrow> find_char c (pre @ c # rest) = int (length pre)"
  by (induction pre) (auto simp: Let_def)

lemma rfind_char_last:
  assumes "c \<notin> set post"
  shows "rfind_char c (pre @ c # post) = int (length pre)"
proof -
  from assms have "c \<notin> set (rev post)" by simp
  then have "find_char c (rev post @ c # rev pre) = int (length (rev post))"
    by (rule find_char_first)
  then show ?thesis by (simp add: rfind_char_def)
qed

lemma extract_wrapped:
  assumes pre: "CHR ''{'' \<notin> set pre" and post: "CHR ''}'' \<notin> set post"
  shows "extract_json_from_llm_response (pre @ CHR ''{'' # body @ CHR ''}'' # post)
           = escape_backslashes (CHR ''{'' # body @ [CHR ''}''])"
proof -
  let ?raw = "pre @ CHR ''{'' # body @ CHR ''}'' # post"
  have s: "find_char CHR ''{'' ?raw = int (length pre)"
    using pre by (rule find_char_first)
  have "rfind_char CHR ''}'' ((pre @ CHR ''{'' # body) @ CHR ''}'' # post)
          = int (length (pre @ CHR ''{'' # body))"
    using post by (rule rfind_char_last)
  then have e: "rfind_char CHR ''}'' ?raw = int (length pre) + 1 + int (length body)" by simp
  have "slice ?raw (int (length pre)) (int (length pre) + 1 + int (length body) + 1)
          = CHR ''{'' # body @ [CHR ''}'']"
    by (simp add: slice_def nat_add_distrib)
  with s e show ?thesis by (simp add: extract_json_from_llm_response_def Let_def)
qed

text \<open>
  C4, amended. For a reply that wraps one object text \<open>{ body }\<close> in prose with no
  \<open>{\<close> before it and no \<open>}\<close> after it, the extraction is that text with every
  backslash doubled, and \<open>json.loads\<close> reads it exactly as the object text reads when
  each of its backslashes is taken as a literal character. When the object text has no
  backslash, the extraction is the text itself and parses to the same object.
\<close>

theorem extract_json_reads_literal_backslashes:
  assumes pre: "CHR ''{'' \<notin> set pre" and post: "CHR ''}'' \<notin> set post"
  shows "json_loads (extract_json_from_llm_response (pre @ CHR ''{'' # body @ CHR ''}'' # post))
           = json_decode True (CHR ''{'' # body @ [CHR ''}''])
       \<and> (backslash \<notin> set body \<longrightarrow>
            extract_json_from_llm_response (pre @ CHR ''{'' # body @ CHR ''}'' # post)
              = CHR ''{'' # body @ [CHR ''}'']
          \<and> json_loads (extract_json_from_llm_response (pre @ CHR ''{'' # body @ CHR ''}'' # post))
              = json_loads (CHR ''{'' # body @ [CHR ''}'']))"
proof -
  note ex = extract_wrapped [OF pre post, of body]
  have a: "json_loads (extract_json_from_llm_response (pre @ CHR ''{'' # body @ CHR ''}'' # post))
           = json_decode True (CHR ''{'' # body @ [CHR ''}''])"
    by (simp only: ex json_decode_escaped)
  have "escape_backslashes (CHR ''{'' # body @ [CHR ''}'']) = CHR ''{'' # body @ [CHR ''}'']"
    if "backslash \<notin> set body"
    using that by (intro escape_backslashes_id) (simp add: backslash_def)
  with ex a show ?thesis by simp
qed

text \<open>Concrete texts, evaluated.\<close>

lemmas json_eval = json_loads_def json_decode_def dquote_def backslash_def is_ws_def punct_def
  is_word_char_def escape_sequence_def escape_char_def add_token_def word_value_def
  unicode_escape_def hex4_def hex_val_def

lemma newline_object_loads:
  "json_loads reply_newline_object = Some (JObject [([97], JString [120, 10, 121])])"
  by (simp add: reply_newline_object_def json_eval)

lemma newline_reply_extracted:
  "extract_json_from_llm_response reply_newline
   = ''{'' @ [dquote] @ ''a'' @ [dquote] @ '': '' @ [dquote] @ ''x''
     @ [backslash, backslash] @ ''ny'' @ [dquote] @ ''}''"
  by (simp add: reply_newline_def reply_newline_object_def extract_json_from_llm_response_def
      rfind_char_def slice_def escape_backslashes_def dquote_def backslash_def Let_def)

lemma quotes_reply_extracted:
  "extract_json_from_llm_response reply_quotes
   = ''{'' @ [dquote] @ ''a'' @ [dquote] @ '': '' @ [dquote] @ ''C:'' @ [backslash, backslash]
     @ ''dir '' @ [backslash, backslash, dquote] @ ''q'' @ [backslash, backslash, dquote, dquote] @ ''}''"
  by (simp add: reply_quotes_def extract_json_from_llm_response_def
      rfind_char_def slice_def escape_backslashes_def dquote_def backslash_def Let_def)

lemma path_object_literal:
  "json_decode True (CHR ''{'' # path_body @ [CHR ''}''])
   = Some (JObject [([112, 97, 116, 104], JString [67, 58, 92, 100, 105, 114])])"
  by (simp add: path_body_def json_eval)

lemma plain_object_loads:
  "json_loads (CHR ''{'' # plain_body @ [CHR ''}''])
   = Some (JObject [([116, 105, 116, 108, 101], JString [73, 110, 116, 114, 111])])"
  by (simp add: plain_body_def json_eval)

lemma surrogate_pair_loads:
  "json_loads (''['' @ [dquote, backslash] @ ''ud83d'' @ [backslash] @ ''ude00'' @ [dquote] @ '']'')
   = Some (JArray [JString [128512]])"
  by (simp add: json_eval)

lemma plain_body_no_backslash: "backslash \<notin> set plain_body"
  by (simp add: plain_body_def dquote_def backslash_def)

theorem extract_json_reads_literal_backslashes_witness:
  "CHR ''{'' \<notin> set ''Here is the outline: ''
   \<and> CHR ''}'' \<notin> set '' Anything else?''
   \<and> backslash \<notin> set plain_body
   \<and> extract_json_from_llm_response
         (''Here is the outline: '' @ CHR ''{'' # plain_body @ CHR ''}'' # '' Anything else?'')
       = CHR ''{'' # plain_body @ [CHR ''}'']
   \<and> json_loads (extract_json_from_llm_response
         (''Here is the outline: '' @ CHR ''{'' # plain_body @ CHR ''}'' # '' Anything else?''))
       = Some (JObject [([116, 105, 116, 108, 101], JString [73, 110, 116, 114, 111])])
   \<and> json_loads (extract_json_from_llm_response
         (''Here is the outline: '' @ CHR ''{'' # path_body @ CHR ''}'' # '' Anything else?''))
       = Some (JObject [([112, 97, 116, 104], JString [67, 58, 92, 100, 105, 114])])"
proof -
  have pre: "CHR ''{'' \<notin> set ''Here is the outline: ''" by simp
  have post: "CHR ''}'' \<notin> set '' Anything else?''" by simp
  note plain = extract_json_reads_literal_backslashes [OF pre post, of plain_body]
  note path = extract_json_reads_literal_backslashes [OF pre post, of path_body]
  from plain plain_body_no_backslash plain_object_loads
  have "extract_json_from_llm_response
         (''Here is the outline: '' @ CHR ''{'' # plain_body @ CHR ''}'' # '' Anything else?'')
       = CHR ''{'' # plain_body @ [CHR ''}'']"
    and "json_loads (extract_json_from_llm_response
         (''Here is the outline: '' @ CHR ''{'' # plain_body @ CHR ''}'' # '' Anything else?''))
       = Some (JObject [([116, 105, 116, 108, 101], JString [73, 110, 116, 114, 111])])"
    by simp_all
  moreover from path path_object_literal
  have "json_loads (extract_json_from_llm_response
         (''Here is the outline: '' @ CHR ''{'' # path_body @ CHR ''}'' # '' Anything else?''))
       = Some (JObject [([112, 97, 116, 104], JString [67, 58, 92, 100, 105, 114])])"
    by simp
  ultimately show ?thesis using pre post plain_body_no_backslash by blast
qed

text \<open>
  C4, as stated, fails in both halves. The well-formed object \<open>{"a": "x\ny"}\<close>
  wrapped in prose comes back with the two characters backslash and \<open>n\<close> in place of
  the line feed; and \<open>{"a": "C:\dir \"q\""}\<close>, whose string has an unescaped backslash,
  does not parse after the extraction, because the doubling also breaks its escaped
  quotes.
\<close>

theorem extract_json_counterexample:
  "json_loads reply_newline_object = Some (JObject [([97], JString [120, 10, 121])])
   \<and> json_loads (extract_json_from_llm_response reply_newline)
       = Some (JObject [([97], JString [120, 92, 110, 121])])
   \<and> json_loads (extract_json_from_llm_response reply_newline) \<noteq> json_loads reply_newline_object
   \<and> json_loads (extract_json_from_llm_response reply_quotes) = None"
proof -
  have a: "json_loads (extract_json_from_llm_response reply_newline)
       = Some (JObject [([97], JString [120, 92, 110, 121])])"
    by (simp add: newline_reply_extracted json_eval)
  have b: "json_loads (extract_json_from_llm_response reply_quotes) = None"
    by (simp add: quotes_reply_extracted json_eval)
  from a b newline_object_loads show ?thesis by simp
qed

end
